theory Spec2Isabelle
  imports Complex_Main
begin

section \<open>Data shared by the analyzers\<close>

text \<open>
  A Python \<open>Counter\<close> (and every other dict that is iterated) is an association list in
  insertion order with distinct keys; a missing key counts as 0.
\<close>

type_synonym 'k counter = "('k \<times> int) list"

fun counter_get :: "'k counter \<Rightarrow> 'k \<Rightarrow> int" where
  "counter_get [] k = 0"
| "counter_get ((k', c) # m) k = (if k' = k then c else counter_get m k)"

fun counter_inc :: "'k counter \<Rightarrow> 'k \<Rightarrow> 'k counter" where
  "counter_inc [] k = [(k, 1)]"
| "counter_inc ((k', c) # m) k = (if k' = k then (k', c + 1) # m else (k', c) # counter_inc m k)"

definition counter_values :: "'k counter \<Rightarrow> int list" where
  "counter_values m = map snd m"

section \<open>Security score (gunlog\_security.py)\<close>

record security_event =
  ev_timestamp :: string
  ev_ip :: string
  event_type :: string
  details :: string
  ev_url :: string
  ev_user_agent :: string
  ev_status_code :: int

record security_metrics =
  total_requests :: int
  security_events :: "security_event list"
  attack_types :: "string counter"
  sensitive_urls_accessed :: "string counter"

text \<open>\<open>sum(metrics['attack_types'].values())\<close>\<close>

definition attack_count :: "security_metrics \<Rightarrow> int" where
  "attack_count m = sum_list (counter_values (attack_types m))"

text \<open>\<open>sum(1 for event in metrics['security_events'] if event['event_type'] == 'Authentication Failure')\<close>\<close>

definition auth_failures :: "security_metrics \<Rightarrow> int" where
  "auth_failures m =
     sum_list (map (\<lambda>e. 1) (filter (\<lambda>e. event_type e = ''Authentication Failure'') (security_events m)))"

text \<open>\<open>sum(metrics['sensitive_urls_accessed'].values())\<close>\<close>

definition sensitive_access :: "security_metrics \<Rightarrow> int" where
  "sensitive_access m = sum_list (counter_values (sensitive_urls_accessed m))"

text \<open>
  The score computation of \<open>generate_security_report\<close> (lines 389--401): the variable
  \<open>security_score\<close> is threaded through the three guarded subtractions and the final
  \<open>max(0, ...)\<close>.
\<close>

definition generate_security_report_score :: "security_metrics \<Rightarrow> int" where
  "generate_security_report_score m =
     (let security_score = 100;
          security_score = (if attack_count m > 0
                            then security_score - min 50 (attack_count m) else security_score);
          security_score = (if auth_failures m > 0
                            then security_score - min 20 (auth_failures m * 5) else security_score);
          security_score = (if sensitive_access m > 0
                            then security_score - min 20 (sensitive_access m * 2) else security_score)
      in max 0 security_score)"

text \<open>The same computation, repeated in \<open>generate_plain_text_report\<close> (lines 869--881).\<close>

definition generate_plain_text_report_score :: "security_metrics \<Rightarrow> int" where
  "generate_plain_text_report_score m =
     (let security_score = 100;
          security_score = (if attack_count m > 0
                            then security_score - min 50 (attack_count m) else security_score);
          security_score = (if auth_failures m > 0
                            then security_score - min 20 (auth_failures m * 5) else security_score);
          security_score = (if sensitive_access m > 0
                            then security_score - min 20 (sensitive_access m * 2) else security_score)
      in max 0 security_score)"

section \<open>Percentiles of the response times (gunlog\_performance.py)\<close>

text \<open>Exceptions of the Python code that the model makes explicit.\<close>

datatype py_error = IndexError | ValueError | OverflowError | ZeroDivisionError

text \<open>\<open>xs[i]\<close> for a non-negative index: out of range raises \<open>IndexError\<close>.\<close>

definition py_index :: "'a list \<Rightarrow> nat \<Rightarrow> py_error + 'a" where
  "py_index xs i = (if i < length xs then Inr (xs ! i) else Inl IndexError)"

text \<open>
  The index expression \<open>int(len(response_times) * 0.9)\<close> is evaluated in IEEE-754 double
  precision: the length is converted to a double, multiplied by the double nearest to the
  literal, and the product is truncated. A positive double is an integer of at most 53
  bits times a power of two. \<open>round_to_double a\<close> rounds the natural number \<open>a\<close> to the
  nearest number with at most 53 significant bits, ties to the even significand; since
  this rounding commutes with scaling by powers of two, it serves both for the conversion
  of the length and, in units of \<open>2 ^ - 53\<close>, for the product.
\<close>

fun bit_length :: "nat \<Rightarrow> nat" where
  "bit_length n = (if n = 0 then 0 else Suc (bit_length (n div 2)))"

declare bit_length.simps [simp del]

definition round_to_double :: "nat \<Rightarrow> nat" where
  "round_to_double a =
     (if bit_length a \<le> 53 then a
      else let s = bit_length a - 53; q = a div 2 ^ s; r = a mod 2 ^ s; half = 2 ^ (s - 1)
           in (if r < half \<or> (r = half \<and> even q) then q else q + 1) * 2 ^ s)"

text \<open>
  The doubles nearest to 0.9, 0.95 and 0.99, each given by its numerator over \<open>2 ^ 53\<close>
  (\<open>0x1.ccccccccccccdp-1\<close>, \<open>0x1.e666666666666p-1\<close>, \<open>0x1.fae147ae147aep-1\<close>).
\<close>

definition float_0_9 :: nat where "float_0_9 = 8106479329266893"
definition float_0_95 :: nat where "float_0_95 = 8556839292003942"
definition float_0_99 :: nat where "float_0_99 = 8917127262193582"

text \<open>\<open>int(n * p)\<close> for an int \<open>n \<ge> 0\<close> and a double \<open>p = m / 2 ^ 53\<close>.\<close>

definition int_len_times :: "nat \<Rightarrow> nat \<Rightarrow> nat" where
  "int_len_times n m = round_to_double (round_to_double n * m) div 2 ^ 53"

text \<open>\<open>sorted(response_times)[int(len(response_times) * p)]\<close>\<close>

definition percentile :: "'a::linorder list \<Rightarrow> nat \<Rightarrow> py_error + 'a" where
  "percentile response_times p =
     py_index (sort response_times) (int_len_times (length response_times) p)"

text \<open>
  The \<open>response_time_stats\<close> entry of \<open>calculate_summary_metrics\<close> (lines 209--220). It stays
  the empty dict (\<open>None\<close>) when there are no samples; otherwise the dict display is
  evaluated entry by entry and an exception of an index lookup leaves the function. The
  entries \<open>avg\<close> and \<open>median\<close> (floating-point arithmetic of the \<open>statistics\<close> module, which
  does not raise on a non-empty list of floats) are left out.
\<close>

record 'a response_time_stats =
  rt_min :: 'a
  rt_max :: 'a
  p90 :: 'a
  p95 :: 'a
  p99 :: 'a

definition calculate_response_time_stats ::
  "'a::linorder list \<Rightarrow> (py_error + 'a response_time_stats) option" where
  "calculate_response_time_stats response_times =
     (if response_times = [] then None
      else Some
        (case percentile response_times float_0_9 of Inl e \<Rightarrow> Inl e | Inr a \<Rightarrow>
         case percentile response_times float_0_95 of Inl e \<Rightarrow> Inl e | Inr b \<Rightarrow>
         case percentile response_times float_0_99 of Inl e \<Rightarrow> Inl e | Inr c \<Rightarrow>
           Inr \<lparr>rt_min = fold min (tl response_times) (hd response_times),
                rt_max = fold max (tl response_times) (hd response_times),
                p90 = a, p95 = b, p99 = c\<rparr>))"

section \<open>Python strings and the regular expressions of the pattern tables\<close>

text \<open>
  A Python \<open>str\<close> is modelled as the list of its code points, for code points below 256
  (one \<open>char\<close> each). \<open>is_space\<close> is \<open>str.isspace\<close> on one character, which is also the
  class \<open>\s\<close> of the \<open>re\<close> module; \<open>lower_char\<close> is \<open>str.lower\<close> on one character: the
  capital letters \<open>A\<close>--\<open>Z\<close> and the capital letters of Latin-1 move up by 32, which sets
  the bit of value 32.
\<close>

definition is_space :: "char \<Rightarrow> bool" where
  "is_space c =
     (let n = (of_char c :: nat)
      in (9 \<le> n \<and> n \<le> 13) \<or> (28 \<le> n \<and> n \<le> 32) \<or> n = 133 \<or> n = 160)"

definition is_upper :: "char \<Rightarrow> bool" where
  "is_upper c =
     (let n = (of_char c :: nat)
      in (65 \<le> n \<and> n \<le> 90) \<or> (192 \<le> n \<and> n \<le> 222 \<and> n \<noteq> 215))"

fun set_bit5 :: "char \<Rightarrow> char" where
  "set_bit5 (Char b0 b1 b2 b3 b4 b5 b6 b7) = Char b0 b1 b2 b3 b4 True b6 b7"

definition lower_char :: "char \<Rightarrow> char" where
  "lower_char c = (if is_upper c then set_bit5 c else c)"

definition lower :: "string \<Rightarrow> string" where
  "lower s = map lower_char s"

text \<open>
  The patterns of \<open>THREAT_PATTERNS\<close> and \<open>SE_BOTS\<close> all start with \<open>(?i)\<close> and are
  sequences of single-character items, each optionally followed by \<open>*\<close> or \<open>+\<close>: a literal
  character (matched ignoring case), \<open>.\<close> (any character but the newline), \<open>\s\<close>, and the
  class \<open>[a-z]\<close> (which, ignoring case, holds the letters of both cases).
\<close>

datatype char_class = Lit char | Any_Char | Space | Range_a_z

datatype quantifier = One | Star | Plus

type_synonym pattern = "(char_class \<times> quantifier) list"

fun class_match :: "char_class \<Rightarrow> char \<Rightarrow> bool" where
  "class_match (Lit x) c = (lower_char c = lower_char x)"
| "class_match Any_Char c = (c \<noteq> CHR 0x0A)"
| "class_match Space c = is_space c"
| "class_match Range_a_z c =
     (let n = (of_char (lower_char c) :: nat) in 97 \<le> n \<and> n \<le> 122 \<and> (of_char c :: nat) < 128)"

text \<open>\<open>match_here p s\<close>: the pattern matches a prefix of \<open>s\<close> (backtracking over the
  repetitions, as \<open>re\<close> does; only whether a match exists is observed).\<close>

fun match_here :: "pattern \<Rightarrow> string \<Rightarrow> bool" where
  "match_here [] s = True"
| "match_here ((c, One) # p) [] = False"
| "match_here ((c, One) # p) (x # xs) = (if class_match c x then match_here p xs else False)"
| "match_here ((c, Star) # p) [] = match_here p []"
| "match_here ((c, Star) # p) (x # xs) =
     (if match_here p (x # xs) then True
      else if class_match c x then match_here ((c, Star) # p) xs else False)"
| "match_here ((c, Plus) # p) [] = False"
| "match_here ((c, Plus) # p) (x # xs) =
     (if class_match c x then match_here ((c, Star) # p) xs else False)"

text \<open>\<open>re.search(pattern, s)\<close> as a truth value: a match starting at some position.\<close>

fun re_search :: "pattern \<Rightarrow> string \<Rightarrow> bool" where
  "re_search p [] = match_here p []"
| "re_search p (x # xs) = (if match_here p (x # xs) then True else re_search p xs)"

text \<open>
  The strings a pattern matches exactly, as the reference for the matcher: one character
  of the class for a plain item, any number of them for \<open>*\<close>, at least one for \<open>+\<close>.
\<close>

fun pattern_lang :: "pattern \<Rightarrow> string set" where
  "pattern_lang [] = {[]}"
| "pattern_lang ((c, One) # p) = {x # w | x w. class_match c x \<and> w \<in> pattern_lang p}"
| "pattern_lang ((c, Star) # p) =
     {u @ w | u w. list_all (class_match c) u \<and> w \<in> pattern_lang p}"
| "pattern_lang ((c, Plus) # p) =
     {u @ w | u w. u \<noteq> [] \<and> list_all (class_match c) u \<and> w \<in> pattern_lang p}"

text \<open>Pattern text without metacharacters.\<close>

definition lit :: "string \<Rightarrow> pattern" where
  "lit s = map (\<lambda>c. (Lit c, One)) s"

section \<open>ThreatMatcher: \<open>detect_threats\<close> (gunlog\_security.py)\<close>

text \<open>\<open>THREAT_PATTERNS\<close> (lines 36--74), a dict in insertion order.\<close>

definition THREAT_PATTERNS :: "(string \<times> pattern list) list" where
  "THREAT_PATTERNS =
    [(''SQL Injection'',
        [lit ''union'' @ [(Space, Plus)] @ lit ''select'',
         lit ''select'' @ [(Any_Char, Plus)] @ lit ''from'',
         lit ''1=1'',
         lit ''or'' @ [(Space, Plus)] @ lit ''1'' @ [(Space, Star)] @ lit ''='',
         lit ''drop'' @ [(Space, Plus)] @ lit ''table'']),
     (''XSS Attack'',
        [lit ''<script'',
         lit ''javascript:'',
         lit ''onerror='',
         lit ''onload='',
         lit ''onclick='']),
     (''Path Traversal'',
        [lit ''../'',
         lit ''..%2f'',
         lit ''/etc/passwd'']),
     (''Command Injection'',
        [lit '';'' @ [(Space, Star), (Range_a_z, Plus)],
         lit ''|'' @ [(Space, Star), (Range_a_z, Plus)]]),
     (''Server Scan'',
        [lit ''/admin'',
         lit ''/wp-admin'',
         lit ''/phpmyadmin'',
         lit ''/'' @ [(Any_Char, One)] @ lit ''git'',
         lit ''/'' @ [(Any_Char, One)] @ lit ''env'']),
     (''Suspicious User Agent'',
        [lit ''sqlmap'',
         lit ''nikto'',
         lit ''nmap'',
         lit ''gobuster'',
         lit ''dirbuster''])]"

text \<open>
  The three nested loops of \<open>detect_threats\<close> (lines 146--153), innermost first; the list
  \<open>detected_threats\<close> is threaded through. The innermost loop appends the threat type at
  the first matching target and breaks; the middle loop breaks as soon as the threat type
  is in the list.
\<close>

fun scan_targets :: "pattern \<Rightarrow> string list \<Rightarrow> string \<Rightarrow> string list \<Rightarrow> string list" where
  "scan_targets pattern [] threat_type detected_threats = detected_threats"
| "scan_targets pattern (target # targets) threat_type detected_threats =
     (if re_search pattern target then detected_threats @ [threat_type]
      else scan_targets pattern targets threat_type detected_threats)"

fun scan_patterns :: "pattern list \<Rightarrow> string list \<Rightarrow> string \<Rightarrow> string list \<Rightarrow> string list" where
  "scan_patterns [] targets threat_type detected_threats = detected_threats"
| "scan_patterns (pattern # patterns) targets threat_type detected_threats =
     (let detected_threats = scan_targets pattern targets threat_type detected_threats
      in if threat_type \<in> set detected_threats then detected_threats
         else scan_patterns patterns targets threat_type detected_threats)"

fun scan_threat_types ::
  "(string \<times> pattern list) list \<Rightarrow> string list \<Rightarrow> string list \<Rightarrow> string list" where
  "scan_threat_types [] targets detected_threats = detected_threats"
| "scan_threat_types ((threat_type, patterns) # rest) targets detected_threats =
     scan_threat_types rest targets (scan_patterns patterns targets threat_type detected_threats)"

definition detect_threats :: "string \<Rightarrow> string \<Rightarrow> string \<Rightarrow> string list" where
  "detect_threats request user_agent referrer =
     (let targets = [request, user_agent, if referrer \<noteq> ''-'' then referrer else '''']
      in scan_threat_types THREAT_PATTERNS targets [])"

text \<open>Some pattern of a table entry matches some target.\<close>

definition category_matches :: "string list \<Rightarrow> string \<times> pattern list \<Rightarrow> bool" where
  "category_matches ts = (\<lambda>(tt, ps). list_ex (\<lambda>p. list_ex (re_search p) ts) ps)"

section \<open>TimestampParser: \<open>parse_time\<close> (the same function in the traffic, security, content and SEO analyzers)\<close>

subsection \<open>The string operations it uses\<close>

text \<open>
  \<open>s.split(sep, maxsplit)\<close> for a one-character separator; \<open>maxsplit = None\<close> stands for the
  call without a limit. The current piece is accumulated in \<open>cur\<close>.
\<close>

fun split_aux :: "char \<Rightarrow> nat option \<Rightarrow> string \<Rightarrow> string \<Rightarrow> string list" where
  "split_aux sep maxsplit cur [] = [cur]"
| "split_aux sep maxsplit cur (c # cs) =
     (if c = sep \<and> maxsplit \<noteq> Some 0
      then cur # split_aux sep (map_option (\<lambda>n. n - 1) maxsplit) [] cs
      else split_aux sep maxsplit (cur @ [c]) cs)"

definition py_split :: "string \<Rightarrow> char \<Rightarrow> nat option \<Rightarrow> string list" where
  "py_split s sep maxsplit = split_aux sep maxsplit [] s"

text \<open>\<open>s.split()\<close>: the maximal runs of non-whitespace characters.\<close>

fun split_ws_aux :: "string \<Rightarrow> string \<Rightarrow> string list" where
  "split_ws_aux cur [] = (if cur = [] then [] else [cur])"
| "split_ws_aux cur (c # cs) =
     (if is_space c then (if cur = [] then split_ws_aux [] cs else cur # split_ws_aux [] cs)
      else split_ws_aux (cur @ [c]) cs)"

definition split_ws :: "string \<Rightarrow> string list" where
  "split_ws s = split_ws_aux [] s"

text \<open>
  \<open>int(s)\<close> for a string: the whitespace that \<open>int\<close> accepts around the number is
  stripped (the characters 9--13, 32, 133 and 160; unlike \<open>str.isspace\<close>, not 28--31), one
  sign is allowed, then decimal digits follow, with single underscores allowed between
  digits. A string with more than 4300 digits is refused (the default
  \<open>sys.get_int_max_str_digits()\<close>). \<open>None\<close> stands for the \<open>ValueError\<close>.
\<close>

definition is_int_space :: "char \<Rightarrow> bool" where
  "is_int_space c =
     (let n = (of_char c :: nat) in (9 \<le> n \<and> n \<le> 13) \<or> n = 32 \<or> n = 133 \<or> n = 160)"

definition is_digit :: "char \<Rightarrow> bool" where
  "is_digit c = (let n = (of_char c :: nat) in 48 \<le> n \<and> n \<le> 57)"

definition digit_value :: "char \<Rightarrow> nat" where
  "digit_value c = of_char c - 48"

definition strip_for_int :: "string \<Rightarrow> string" where
  "strip_for_int s = rev (dropWhile is_int_space (rev (dropWhile is_int_space s)))"

fun py_digits :: "nat \<Rightarrow> string \<Rightarrow> nat option" where
  "py_digits acc [] = Some acc"
| "py_digits acc [c] = (if is_digit c then Some (10 * acc + digit_value c) else None)"
| "py_digits acc (c # d # ds) =
     (if is_digit c then py_digits (10 * acc + digit_value c) (d # ds)
      else if c = CHR ''_'' \<and> is_digit d then py_digits (10 * acc + digit_value d) ds
      else None)"

definition py_nat :: "string \<Rightarrow> nat option" where
  "py_nat s = (case s of [] \<Rightarrow> None
               | c # cs \<Rightarrow> if is_digit c then py_digits (digit_value c) cs else None)"

definition py_int :: "string \<Rightarrow> int option" where
  "py_int s =
     (let t = strip_for_int s
      in if int (length (filter is_digit t)) > 4300 then None
         else
           (case t of
              [] \<Rightarrow> None
            | c # cs \<Rightarrow>
                if c = CHR ''+'' then map_option int (py_nat cs)
                else if c = CHR ''-'' then map_option (\<lambda>n. - int n) (py_nat cs)
                else map_option int (py_nat (c # cs))))"

subsection \<open>\<open>datetime.datetime\<close>\<close>

record datetime =
  dt_year :: int
  dt_month :: int
  dt_day :: int
  dt_hour :: int
  dt_minute :: int
  dt_second :: int
  dt_microsecond :: int

definition is_leap :: "int \<Rightarrow> bool" where
  "is_leap y = (y mod 4 = 0 \<and> (y mod 100 \<noteq> 0 \<or> y mod 400 = 0))"

definition days_in_month :: "int \<Rightarrow> int \<Rightarrow> int" where
  "days_in_month y m =
     (if m = 2 \<and> is_leap y then 29
      else [31, 28, 31, 30, 31, 30, 31, 31, 30, 31, 30, 31] ! nat (m - 1))"

text \<open>
  The constructor \<open>datetime(year, month, day, hour, minute, second)\<close>: every field is
  range-checked and a field out of range raises \<open>ValueError\<close> (\<open>None\<close>).
\<close>

definition datetime_new :: "int \<Rightarrow> int \<Rightarrow> int \<Rightarrow> int \<Rightarrow> int \<Rightarrow> int \<Rightarrow> datetime option" where
  "datetime_new y m d hh mm ss =
     (if 1 \<le> y \<and> y \<le> 9999 \<and> 1 \<le> m \<and> m \<le> 12 \<and> 1 \<le> d \<and> d \<le> days_in_month y m
         \<and> 0 \<le> hh \<and> hh \<le> 23 \<and> 0 \<le> mm \<and> mm \<le> 59 \<and> 0 \<le> ss \<and> ss \<le> 59
      then Some \<lparr>dt_year = y, dt_month = m, dt_day = d, dt_hour = hh, dt_minute = mm,
             dt_second = ss, dt_microsecond = 0\<rparr>
      else None)"

definition days_before_year :: "int \<Rightarrow> int" where
  "days_before_year y = (let y1 = y - 1 in y1 * 365 + y1 div 4 - y1 div 100 + y1 div 400)"

definition days_before_month :: "int \<Rightarrow> int \<Rightarrow> int" where
  "days_before_month y m =
     [0, 31, 59, 90, 120, 151, 181, 212, 243, 273, 304, 334] ! nat (m - 1)
       + (if m > 2 \<and> is_leap y then 1 else 0)"

definition toordinal :: "datetime \<Rightarrow> int" where
  "toordinal dt =
     days_before_year (dt_year dt) + days_before_month (dt_year dt) (dt_month dt) + dt_day dt"

text \<open>\<open>dt.weekday()\<close>: Monday is 0.\<close>

definition weekday :: "datetime \<Rightarrow> int" where
  "weekday dt = (toordinal dt + 6) mod 7"

text \<open>
  Naive datetimes are compared and subtracted by their position on the time line. A
  \<open>timedelta\<close> is its number of microseconds; \<open>total_seconds\<close> is read as an exact rational.
\<close>

type_synonym timedelta = int

definition to_microseconds :: "datetime \<Rightarrow> int" where
  "to_microseconds dt =
     (((toordinal dt * 24 + dt_hour dt) * 60 + dt_minute dt) * 60 + dt_second dt) * 1000000
       + dt_microsecond dt"

definition datetime_sub :: "datetime \<Rightarrow> datetime \<Rightarrow> timedelta" where
  "datetime_sub a b = to_microseconds a - to_microseconds b"

definition timedelta_minutes :: "int \<Rightarrow> timedelta" where
  "timedelta_minutes n = n * 60 * 1000000"

definition timedelta_days :: "int \<Rightarrow> timedelta" where
  "timedelta_days n = n * 86400 * 1000000"

definition total_seconds :: "timedelta \<Rightarrow> rat" where
  "total_seconds d = of_int d / 1000000"

subsection \<open>\<open>parse_time\<close>\<close>

definition month_names :: "(string \<times> int) list" where
  "month_names =
     [(''Jan'', 1), (''Feb'', 2), (''Mar'', 3), (''Apr'', 4), (''May'', 5), (''Jun'', 6),
      (''Jul'', 7), (''Aug'', 8), (''Sep'', 9), (''Oct'', 10), (''Nov'', 11), (''Dec'', 12)]"

text \<open>\<open>d.get(key, default)\<close>\<close>

definition dict_get :: "('k \<times> 'v) list \<Rightarrow> 'k \<Rightarrow> 'v \<Rightarrow> 'v" where
  "dict_get d k dflt = (case map_of d k of None \<Rightarrow> dflt | Some v \<Rightarrow> v)"

text \<open>
  The body of the \<open>try\<close> block (lines 199--214 of gunlog\_traffic.py): \<open>Inl\<close> is an exception
  raised inside it. Unpacking a list of the wrong length and a failed \<open>int\<close> raise
  \<open>ValueError\<close>, \<open>rest.split()[0]\<close> on a blank rest raises \<open>IndexError\<close>, and the
  \<open>datetime\<close> constructor raises \<open>ValueError\<close> for a field out of range.
\<close>

definition parse_time_try :: "string \<Rightarrow> py_error + (datetime \<times> int \<times> int)" where
  "parse_time_try time_str =
     (case py_split time_str CHR '':'' (Some 1) of
        [date_part, time_part] \<Rightarrow>
          (case py_split date_part CHR ''/'' None of
             [day, month, year] \<Rightarrow>
               (case py_split time_part CHR '':'' (Some 2) of
                  [hour, minute, rest] \<Rightarrow>
                    (case split_ws rest of
                       [] \<Rightarrow> Inl IndexError
                     | second # _ \<Rightarrow>
                         (let month_num = dict_get month_names month 1
                          in case (py_int year, py_int day, py_int hour, py_int minute, py_int second) of
                               (Some y, Some d, Some hh, Some mm, Some ss) \<Rightarrow>
                                 (case datetime_new y month_num d hh mm ss of
                                    None \<Rightarrow> Inl ValueError
                                  | Some dt \<Rightarrow> Inr (dt, hh, weekday dt))
                             | _ \<Rightarrow> Inl ValueError))
                | _ \<Rightarrow> Inl ValueError)
           | _ \<Rightarrow> Inl ValueError)
      | _ \<Rightarrow> Inl ValueError)"

text \<open>
  \<open>parse_time\<close> itself: the bare \<open>except\<close> catches every exception, reads the wall clock
  and returns it with hour 0 and weekday 0. The reading of \<open>datetime.datetime.now()\<close> is
  the parameter \<open>now\<close>.
\<close>

definition parse_time :: "datetime \<Rightarrow> string \<Rightarrow> datetime \<times> int \<times> int" where
  "parse_time now time_str =
     (case parse_time_try time_str of
        Inr result \<Rightarrow> result
      | Inl e \<Rightarrow> (now, 0, 0))"

section \<open>Floating-point arithmetic\<close>

text \<open>
  A Python \<open>float\<close> is an IEEE-754 double. A finite double is modelled by the rational
  number it denotes, and every arithmetic operation by the exact result rounded to the
  nearest double, ties to the even significand. \<open>round_double_pos a b\<close> rounds the positive
  rational \<open>a / b\<close>: with \<open>n\<close> the exponent of its leading bit, the result is the nearest
  integer multiple of \<open>2 ^ (n - 52)\<close>. The values that occur here stay far inside the
  exponent range of the doubles, except where an overflow is checked explicitly.
\<close>

function bit_length_int :: "int \<Rightarrow> nat" where
  "bit_length_int n = (if n \<le> 0 then 0 else Suc (bit_length_int (n div 2)))"
  by pat_completeness auto
termination
  by (relation "measure nat") auto

declare bit_length_int.simps [simp del]

definition round_half_even :: "int \<Rightarrow> int \<Rightarrow> int" where
  "round_half_even num den =
     (let q = num div den; r = num mod den
      in if 2 * r < den \<or> (2 * r = den \<and> even q) then q else q + 1)"

definition ge_pow2 :: "int \<Rightarrow> int \<Rightarrow> int \<Rightarrow> bool" where
  "ge_pow2 a b k = (if k \<ge> 0 then a \<ge> b * 2 ^ nat k else a * 2 ^ nat (- k) \<ge> b)"

definition round_double_pos :: "int \<Rightarrow> int \<Rightarrow> rat" where
  "round_double_pos a b =
     (let d = int (bit_length_int a) - int (bit_length_int b);
          n = (if ge_pow2 a b d then d else d - 1);
          e = n - 52;
          m = (if e \<ge> 0 then round_half_even a (b * 2 ^ nat e)
               else round_half_even (a * 2 ^ nat (- e)) b)
      in if e \<ge> 0 then of_int (m * 2 ^ nat e) else of_int m / of_int (2 ^ nat (- e)))"

definition round_double :: "rat \<Rightarrow> rat" where
  "round_double q =
     (let (a, b) = quotient_of q
      in if a = 0 then 0
         else if a > 0 then round_double_pos a b
         else - round_double_pos (- a) b)"

text \<open>The operations on two floats (an int operand is converted first, exactly when it is
  below \<open>2 ^ 53\<close> in absolute value).\<close>

definition float_of_int :: "int \<Rightarrow> rat" where
  "float_of_int n = round_double (of_int n)"

definition float_add :: "rat \<Rightarrow> rat \<Rightarrow> rat" where
  "float_add x y = round_double (x + y)"

definition float_sub :: "rat \<Rightarrow> rat \<Rightarrow> rat" where
  "float_sub x y = round_double (x - y)"

definition float_mul :: "rat \<Rightarrow> rat \<Rightarrow> rat" where
  "float_mul x y = round_double (x * y)"

definition float_div :: "rat \<Rightarrow> rat \<Rightarrow> rat" where
  "float_div x y = round_double (x / y)"

text \<open>
  \<open>a / b\<close> for two ints: the exact quotient, correctly rounded; \<open>OverflowError\<close> when the
  result is too large for a double, \<open>ZeroDivisionError\<close> when \<open>b\<close> is 0.
\<close>

definition int_true_div :: "int \<Rightarrow> int \<Rightarrow> py_error + rat" where
  "int_true_div a b =
     (if b = 0 then Inl ZeroDivisionError
      else (let r = round_double (of_int a / of_int b)
            in if \<bar>r\<bar> \<ge> 2 ^ 1024 then Inl OverflowError else Inr r))"

section \<open>SessionTracker and aggregation of the traffic analyzer (gunlog\_traffic.py)\<close>

subsection \<open>Dicts, sets and small library functions\<close>

text \<open>
  A dict is an association list in insertion order: assigning to an existing key keeps
  its place, a new key goes to the end. A Python \<open>set\<close> is a duplicate-free list.
\<close>

fun dict_set :: "('k \<times> 'v) list \<Rightarrow> 'k \<Rightarrow> 'v \<Rightarrow> ('k \<times> 'v) list" where
  "dict_set [] k v = [(k, v)]"
| "dict_set ((k', v') # d) k v = (if k' = k then (k, v) # d else (k', v') # dict_set d k v)"

definition set_add :: "'a list \<Rightarrow> 'a \<Rightarrow> 'a list" where
  "set_add s x = (if x \<in> set s then s else s @ [x])"

text \<open>
  \<open>os.path.splitext\<close> (POSIX): the extension starts at the last dot of the last path
  component, unless only dots precede it there.
\<close>

definition splitext :: "string \<Rightarrow> string \<times> string" where
  "splitext p =
     (let base_rev = takeWhile (\<lambda>c. c \<noteq> CHR ''/'') (rev p);
          ext_rev = takeWhile (\<lambda>c. c \<noteq> CHR ''.'') base_rev;
          rest = dropWhile (\<lambda>c. c \<noteq> CHR ''.'') base_rev
      in case rest of
           [] \<Rightarrow> (p, [])
         | dot # stem_rev \<Rightarrow>
             if list_ex (\<lambda>c. c \<noteq> CHR ''.'') stem_rev
             then (take (length p - (length ext_rev + 1)) p, dot # rev ext_rev)
             else (p, []))"

text \<open>\<open>needle in haystack\<close> for strings.\<close>

fun is_prefix :: "string \<Rightarrow> string \<Rightarrow> bool" where
  "is_prefix [] s = True"
| "is_prefix (a # as) [] = False"
| "is_prefix (a # as) (c # cs) = (if a = c then is_prefix as cs else False)"

fun contains :: "string \<Rightarrow> string \<Rightarrow> bool" where
  "contains [] needle = (needle = [])"
| "contains (c # cs) needle = (if is_prefix needle (c # cs) then True else contains cs needle)"

subsection \<open>BotClassifier: \<open>is_bot\<close>\<close>

definition BOT_PATTERNS :: "string list" where
  "BOT_PATTERNS =
     [''bot'', ''crawl'', ''spider'', ''slurp'', ''baidu'', ''bing'', ''google'',
      ''yandex'', ''facebook'', ''archive'', ''lighthouse'', ''pagespeed'', ''pingdom'',
      ''uptimerobot'', ''semrush'', ''ahrefs'', ''moz'', ''screaming'', ''yahoo'']"

definition is_bot :: "string \<Rightarrow> bool" where
  "is_bot user_agent = (let ua_lower = lower user_agent in list_ex (contains ua_lower) BOT_PATTERNS)"

subsection \<open>The scan loop of \<open>parse_access_log\<close>\<close>

text \<open>The eight groups of a line matched by \<open>LOG_PATTERN\<close>; the status code is already an int.\<close>

record log_entry =
  e_ip :: string
  e_auth :: string
  e_time_str :: string
  e_request :: string
  e_status_code :: int
  e_response_size :: string
  e_referrer :: string
  e_user_agent :: string

text \<open>
  The session id \<open>f"{ip}_{timestamp.timestamp()}"\<close> is kept as the pair it is formatted
  from.
\<close>

type_synonym session_id = "string \<times> datetime"

text \<open>
  The part of \<open>metrics\<close> that depends on the fields above, together with the locals
  \<open>ip_sessions\<close> and \<open>skipped_count\<close>. The counters fed by the user-agent, GeoIP and URL
  parsing libraries (browsers, countries, referrer types, UTM parameters) are left out.
\<close>

record traffic_metrics =
  total_hits :: int
  unique_ips :: "string list"
  unique_visitors :: "string list"
  user_agents :: "string counter"
  bot_hits :: int
  human_hits :: int
  hourly_traffic :: "int counter"
  daily_traffic :: "int counter"
  status_codes :: "int counter"
  pages :: "string counter"
  entry_pages :: "string counter"
  exit_pages :: "string counter"
  file_types :: "string counter"
  sessions :: "(string \<times> (datetime \<times> string \<times> session_id) list) list"
  paths :: "(datetime \<times> string \<times> string \<times> session_id) list"
  ip_sessions :: "(string \<times> datetime) list"
  skipped_count :: int

definition initial_traffic_metrics :: traffic_metrics where
  "initial_traffic_metrics =
     \<lparr>total_hits = 0, unique_ips = [], unique_visitors = [], user_agents = [],
      bot_hits = 0, human_hits = 0, hourly_traffic = [], daily_traffic = [],
      status_codes = [], pages = [], entry_pages = [], exit_pages = [], file_types = [],
      sessions = [], paths = [], ip_sessions = [], skipped_count = 0\<rparr>"

definition static_extensions :: "string list" where
  "static_extensions =
     [''.jpg'', ''.jpeg'', ''.png'', ''.gif'', ''.ico'', ''.css'',
      ''.js'', ''.svg'', ''.woff'', ''.woff2'', ''.ttf'', ''.eot'']"

definition session_timeout :: timedelta where
  "session_timeout = timedelta_minutes 30"

text \<open>\<open>os.path.splitext(url)[1].lower() in static_extensions\<close>\<close>

definition is_static_url :: "string \<Rightarrow> bool" where
  "is_static_url url = (lower (snd (splitext url)) \<in> set static_extensions)"

text \<open>
  Session tracking (lines 454--484) for one event. The defaultdict \<open>metrics['sessions']\<close>
  yields the empty list for a missing key; \<open>metrics['sessions'][ip][0][2]\<close> raises
  \<open>IndexError\<close> on an empty list.
\<close>

definition track_session ::
  "traffic_metrics \<Rightarrow> string \<Rightarrow> datetime \<Rightarrow> string \<Rightarrow> bool \<Rightarrow> int \<Rightarrow> py_error + traffic_metrics" where
  "track_session m ip timestamp url is_static status_code =
     (let step =
        (case map_of (ip_sessions m) ip of
           Some last_time \<Rightarrow>
             if datetime_sub timestamp last_time > session_timeout
             then
               (let session_id = (ip, timestamp);
                    old = dict_get (sessions m) ip [];
                    m = (if length old > 0
                         then m\<lparr>exit_pages := counter_inc (exit_pages m) (fst (snd (last old)))\<rparr>
                         else m);
                    m = (if \<not> is_static \<and> status_code = 200
                         then m\<lparr>entry_pages := counter_inc (entry_pages m) url\<rparr> else m)
                in Inr (m\<lparr>sessions := dict_set (sessions m) ip [(timestamp, url, session_id)]\<rparr>,
                        session_id))
             else
               (case dict_get (sessions m) ip [] of
                  [] \<Rightarrow> Inl IndexError
                | first # others \<Rightarrow>
                    (let session_id = snd (snd first)
                     in Inr (m\<lparr>sessions := dict_set (sessions m) ip
                                   ((first # others) @ [(timestamp, url, session_id)])\<rparr>,
                             session_id)))
         | None \<Rightarrow>
             (let session_id = (ip, timestamp);
                  m = (if \<not> is_static \<and> status_code = 200
                       then m\<lparr>entry_pages := counter_inc (entry_pages m) url\<rparr> else m)
              in Inr (m\<lparr>sessions := dict_set (sessions m) ip [(timestamp, url, session_id)]\<rparr>,
                      session_id)))
      in case step of
           Inl e \<Rightarrow> Inl e
         | Inr (m, session_id) \<Rightarrow>
             Inr (m\<lparr>ip_sessions := dict_set (ip_sessions m) ip timestamp,
                     paths := paths m @ [(timestamp, ip, url, session_id)]\<rparr>))"

text \<open>Lines 365--371: the method and the URL of the request line.\<close>

definition request_method_url :: "string \<Rightarrow> string \<times> string" where
  "request_method_url request_line =
     (let request_parts = split_ws request_line
      in if length request_parts \<ge> 2 then (request_parts ! 0, request_parts ! 1)
         else (''UNKNOWN'', ''UNKNOWN''))"

text \<open>
  Lines 373--423 for one matched line: the counters. The value of \<open>is_static\<close> computed
  here, \<open>file_ext in static_extensions\<close>, is \<open>is_static_url url\<close>.
\<close>

definition count_hit ::
  "traffic_metrics \<Rightarrow> log_entry \<Rightarrow> int \<Rightarrow> int \<Rightarrow> string \<Rightarrow> string \<Rightarrow> traffic_metrics" where
  "count_hit m e hour day_of_week method url =
     (let file_ext = lower (snd (splitext url));
          m = m\<lparr>file_types := counter_inc (file_types m)
                                   (if file_ext \<noteq> [] then file_ext else ''(none)'')\<rparr>;
          is_static = (file_ext \<in> set static_extensions);
          m = m\<lparr>total_hits := total_hits m + 1,
                 unique_ips := set_add (unique_ips m) (e_ip e),
                 unique_visitors := set_add (unique_visitors m) (e_ip e @ ''|'' @ e_user_agent e)\<rparr>;
          m = (if is_bot (e_user_agent e) then m\<lparr>bot_hits := bot_hits m + 1\<rparr>
               else m\<lparr>human_hits := human_hits m + 1\<rparr>);
          m = m\<lparr>user_agents := counter_inc (user_agents m) (e_user_agent e),
                 hourly_traffic := counter_inc (hourly_traffic m) hour,
                 daily_traffic := counter_inc (daily_traffic m) day_of_week,
                 status_codes := counter_inc (status_codes m) (e_status_code e)\<rparr>
      in if \<not> is_static \<and> e_status_code e = 200 \<and> method = ''GET''
         then m\<lparr>pages := counter_inc (pages m) url\<rparr> else m)"

text \<open>
  The body of the loop for one matched line (lines 346--484): the skip of internal
  addresses, the timestamp, the request line, the counters and the session tracking.
  \<open>is_internal_ip\<close> rests on the \<open>ipaddress\<close> library and is the parameter \<open>internal\<close>;
  \<open>now\<close> is the reading of the wall clock if \<open>parse_time\<close> asks for it while this line is
  processed.
\<close>

definition process_entry ::
  "(string \<Rightarrow> bool) \<Rightarrow> datetime \<Rightarrow> traffic_metrics \<Rightarrow> log_entry \<Rightarrow> py_error + traffic_metrics" where
  "process_entry internal now m e =
     (if internal (e_ip e) then Inr (m\<lparr>skipped_count := skipped_count m + 1\<rparr>)
      else
        (let (timestamp, hour, day_of_week) = parse_time now (e_time_str e);
             (method, url) = request_method_url (e_request e);
             m = count_hit m e hour day_of_week method url
         in track_session m (e_ip e) timestamp url (is_static_url url) (e_status_code e)))"

text \<open>
  The loop over the matched lines. The wall clock may advance from line to line:
  \<open>clock i\<close> is its reading while the \<open>i\<close>-th matched line is processed.
\<close>

fun scan_entries ::
  "(string \<Rightarrow> bool) \<Rightarrow> (nat \<Rightarrow> datetime) \<Rightarrow> nat \<Rightarrow> traffic_metrics \<Rightarrow> log_entry list
     \<Rightarrow> py_error + traffic_metrics" where
  "scan_entries internal clock i m [] = Inr m"
| "scan_entries internal clock i m (e # es) =
     (case process_entry internal (clock i) m e of
        Inl err \<Rightarrow> Inl err
      | Inr m' \<Rightarrow> scan_entries internal clock (Suc i) m' es)"

text \<open>After the loop (lines 486--490): the last URL of every session left is an exit page.\<close>

fun record_exit_pages ::
  "string counter \<Rightarrow> (string \<times> (datetime \<times> string \<times> session_id) list) list \<Rightarrow> string counter" where
  "record_exit_pages exits [] = exits"
| "record_exit_pages exits ((ip, session) # rest) =
     record_exit_pages
       (if length session > 0 then counter_inc exits (fst (snd (last session))) else exits) rest"

text \<open>
  \<open>parse_access_log\<close> on the matched lines of the file: an exception inside the \<open>try\<close>
  block makes it return \<open>None\<close>.
\<close>

definition parse_access_log ::
  "(string \<Rightarrow> bool) \<Rightarrow> (nat \<Rightarrow> datetime) \<Rightarrow> log_entry list \<Rightarrow> traffic_metrics option" where
  "parse_access_log internal clock entries =
     (case scan_entries internal clock 0 initial_traffic_metrics entries of
        Inl err \<Rightarrow> None
      | Inr m \<Rightarrow> Some (m\<lparr>exit_pages := record_exit_pages (exit_pages m) (sessions m)\<rparr>))"

subsection \<open>\<open>calculate_bounce_rate\<close>\<close>




section \<open>Session tracking of the SEO analyzer (gunlog\_seo.py)\<close>

text \<open>\<open>SE_BOTS\<close> (lines 38--76); all its patterns are plain text matched ignoring case.\<close>

definition SE_BOTS :: "(string \<times> pattern list) list" where
  "SE_BOTS =
    [(''Googlebot'',
        [lit ''googlebot'', lit ''google-site-verification'', lit ''google web preview'',
         lit ''google favicon'']),
     (''Bingbot'', [lit ''bingbot'', lit ''msnbot'', lit ''adidxbot'', lit ''bingpreview'']),
     (''Yandex'', [lit ''yandex'', lit ''yandexbot'', lit ''yandeximages'']),
     (''Baidu'', [lit ''baiduspider'', lit ''baidu'']),
     (''DuckDuckGo'', [lit ''duckduckbot'', lit ''duckduckgo'']),
     (''Yahoo'', [lit ''yahoo! slurp'', lit ''yahooseeker'']),
     (''Other'',
        [lit ''ahrefsbot'', lit ''semrushbot'', lit ''mj12bot'', lit ''dotbot'', lit ''blexbot'',
         lit ''seznambot''])]"

text \<open>\<open>identify_bot\<close>: the name of the first table entry with a matching pattern, or \<open>None\<close>.\<close>

fun identify_bot_in :: "(string \<times> pattern list) list \<Rightarrow> string \<Rightarrow> string option" where
  "identify_bot_in [] ua = None"
| "identify_bot_in ((bot_name, patterns) # rest) ua =
     (if list_ex (\<lambda>pattern. re_search pattern ua) patterns then Some bot_name
      else identify_bot_in rest ua)"

definition identify_bot :: "string \<Rightarrow> string option" where
  "identify_bot ua = identify_bot_in SE_BOTS ua"

text \<open>
  The locals \<open>sessions\<close> and \<open>ip_last_seen\<close> of the SEO \<open>parse_access_log\<close> and the two
  counters the session tracking feeds; the other SEO metrics are left out.
\<close>

record seo_state =
  seo_sessions :: "(string \<times> (datetime \<times> string) list) list"
  ip_last_seen :: "(string \<times> datetime) list"
  top_entry_pages :: "string counter"
  top_exit_pages :: "string counter"

definition initial_seo_state :: seo_state where
  "initial_seo_state =
     \<lparr>seo_sessions = [], ip_last_seen = [], top_entry_pages = [], top_exit_pages = []\<rparr>"

text \<open>
  One matched line: the timestamp, the method and URL (\<open>request.split(' ')\<close>), the bot
  name, and for non-bot traffic the session bookkeeping of lines 354--367. Here a session
  is continued when the gap is strictly smaller than the timeout.
\<close>

definition seo_process_entry :: "datetime \<Rightarrow> seo_state \<Rightarrow> log_entry \<Rightarrow> seo_state" where
  "seo_process_entry now st e =
     (let (timestamp, hour, day_of_week) = parse_time now (e_time_str e);
          request_parts = py_split (e_request e) CHR '' '' None;
          (method, url) = (if length request_parts \<ge> 2
                           then (request_parts ! 0, request_parts ! 1) else ([], []));
          bot_name = identify_bot (e_user_agent e)
      in if bot_name = None
         then
           (let continued =
                  (case map_of (ip_last_seen st) (e_ip e) of
                     Some last_seen \<Rightarrow> datetime_sub timestamp last_seen < session_timeout
                   | None \<Rightarrow> False);
                st = (if continued
                      then st\<lparr>seo_sessions := dict_set (seo_sessions st) (e_ip e)
                                 (dict_get (seo_sessions st) (e_ip e) [] @ [(timestamp, url)])\<rparr>
                      else
                        (let st = (if e_status_code e = 200 \<and> method = ''GET''
                                   then st\<lparr>top_entry_pages := counter_inc (top_entry_pages st) url\<rparr>
                                   else st)
                         in st\<lparr>seo_sessions := dict_set (seo_sessions st) (e_ip e) [(timestamp, url)]\<rparr>))
            in st\<lparr>ip_last_seen := dict_set (ip_last_seen st) (e_ip e) timestamp\<rparr>)
         else st)"

fun seo_scan_entries :: "(nat \<Rightarrow> datetime) \<Rightarrow> nat \<Rightarrow> seo_state \<Rightarrow> log_entry list \<Rightarrow> seo_state" where
  "seo_scan_entries clock i st [] = st"
| "seo_scan_entries clock i st (e # es) =
     seo_scan_entries clock (Suc i) (seo_process_entry (clock i) st e) es"

text \<open>After the loop (lines 369--374): the last URL of every session left is an exit page.\<close>

fun seo_exit_pages :: "string counter \<Rightarrow> (string \<times> (datetime \<times> string) list) list \<Rightarrow> string counter" where
  "seo_exit_pages exits [] = exits"
| "seo_exit_pages exits ((ip, session) # rest) =
     seo_exit_pages (if session \<noteq> [] then counter_inc exits (snd (last session)) else exits) rest"

definition seo_parse_access_log :: "(nat \<Rightarrow> datetime) \<Rightarrow> log_entry list \<Rightarrow> seo_state" where
  "seo_parse_access_log clock entries =
     (let st = seo_scan_entries clock 0 initial_seo_state entries
      in st\<lparr>top_exit_pages := seo_exit_pages (top_exit_pages st) (seo_sessions st)\<rparr>)"

section \<open>Engagement metrics of the content analyzer (gunlog\_content.py)\<close>

text \<open>
  \<open>calculate_reading_time\<close> (lines 202--220). Floats are modelled by exact rationals
  throughout this section.
\<close>

definition calculate_reading_time :: "int \<Rightarrow> rat" where
  "calculate_reading_time size_bytes =
     (if size_bytes \<le> 0 then 0
      else (let words = of_int size_bytes / 6;
                reading_time_minutes = words / 200
            in reading_time_minutes * 60))"

text \<open>\<open>str.isdigit\<close>: besides the decimal digits it accepts the superscript digits of Latin-1.\<close>

definition isdigit_char :: "char \<Rightarrow> bool" where
  "isdigit_char c = (let n = (of_char c :: nat) in (48 \<le> n \<and> n \<le> 57) \<or> n = 178 \<or> n = 179 \<or> n = 185)"

definition isdigit :: "string \<Rightarrow> bool" where
  "isdigit s = (s \<noteq> [] \<and> list_all isdigit_char s)"

record engagement =
  eng_ip :: string
  eng_timestamp :: datetime
  estimated_reading_time :: rat

record engagement_rate =
  avg_time_on_page :: rat
  bounce_rate :: rat
  engagement_score :: rat

text \<open>
  The part of the content \<open>metrics\<close> that the engagement computation reads and writes,
  with the local \<open>ip_sessions\<close>.
\<close>

record content_metrics =
  c_total_hits :: int
  c_sessions :: "(string \<times> (datetime \<times> string \<times> session_id) list) list"
  c_ip_sessions :: "(string \<times> datetime) list"
  content_engagement :: "(string \<times> engagement list) list"
  trending_content :: "(string \<times> datetime) list"
  engagement_rates :: "(string \<times> engagement_rate) list"

definition initial_content_metrics :: content_metrics where
  "initial_content_metrics =
     \<lparr>c_total_hits = 0, c_sessions = [], c_ip_sessions = [], content_engagement = [],
      trending_content = [], engagement_rates = []\<rparr>"

definition content_static_extensions :: "string list" where
  "content_static_extensions =
     [''.css'', ''.js'', ''.jpg'', ''.jpeg'', ''.png'', ''.gif'', ''.ico'', ''.svg'']"

text \<open>
  One matched line of the content scan (lines 283--383). \<open>url_match\<close> is the first group of
  \<open>URL_PATTERN\<close> found in the line, if any; \<open>yesterday\<close> is the wall clock at the start of
  the run minus one day. Bots, lines without a URL, static resources and non-200
  responses are skipped before any session bookkeeping.
\<close>

definition content_process_entry ::
  "datetime \<Rightarrow> timedelta \<Rightarrow> content_metrics \<Rightarrow> log_entry \<times> string option
     \<Rightarrow> py_error + content_metrics" where
  "content_process_entry now yesterday m line =
     (let e = fst line; url_match = snd line
      in if is_bot (e_user_agent e) then Inr m
         else
           (let (timestamp, hour, day_of_week) = parse_time now (e_time_str e)
            in case url_match of
                 None \<Rightarrow> Inr m
               | Some url \<Rightarrow>
                   (let file_ext = lower (snd (splitext url));
                        is_static = (file_ext \<in> set content_static_extensions)
                    in if is_static \<or> e_status_code e \<noteq> 200 then Inr m
                       else
                         (let m = m\<lparr>c_total_hits := c_total_hits m + 1\<rparr>;
                              size_ok = (e_response_size e \<noteq> ''-'' \<and> isdigit (e_response_size e))
                          in case (if size_ok then py_int (e_response_size e) else Some 0) of
                               None \<Rightarrow> Inl ValueError
                             | Some size_bytes \<Rightarrow>
                                 (let m = (if size_ok
                                           then m\<lparr>content_engagement :=
                                                    dict_set (content_engagement m) url
                                                      (dict_get (content_engagement m) url []
                                                         @ [\<lparr>eng_ip = e_ip e, eng_timestamp = timestamp,
                                                              estimated_reading_time =
                                                                calculate_reading_time size_bytes\<rparr>])\<rparr>
                                           else m);
                                      m = (if to_microseconds timestamp > yesterday
                                           then m\<lparr>trending_content :=
                                                    trending_content m @ [(url, timestamp)]\<rparr>
                                           else m)
                                  in case
                                       (case map_of (c_ip_sessions m) (e_ip e) of
                                          Some last_time \<Rightarrow>
                                            if datetime_sub timestamp last_time > session_timeout
                                            then Inr [(timestamp, url, (e_ip e, timestamp))]
                                            else
                                              (case dict_get (c_sessions m) (e_ip e) [] of
                                                 [] \<Rightarrow> Inl IndexError
                                               | first # others \<Rightarrow>
                                                   Inr ((first # others)
                                                          @ [(timestamp, url, snd (snd first))]))
                                        | None \<Rightarrow> Inr [(timestamp, url, (e_ip e, timestamp))])
                                     of
                                       Inl err \<Rightarrow> Inl err
                                     | Inr session \<Rightarrow>
                                         Inr (m\<lparr>c_sessions := dict_set (c_sessions m) (e_ip e) session,
                                                 c_ip_sessions :=
                                                   dict_set (c_ip_sessions m) (e_ip e) timestamp\<rparr>))))))"

fun content_scan ::
  "(nat \<Rightarrow> datetime) \<Rightarrow> timedelta \<Rightarrow> nat \<Rightarrow> content_metrics \<Rightarrow> (log_entry \<times> string option) list
     \<Rightarrow> py_error + content_metrics" where
  "content_scan clock yesterday i m [] = Inr m"
| "content_scan clock yesterday i m (line # lines) =
     (case content_process_entry (clock i) yesterday m line of
        Inl err \<Rightarrow> Inl err
      | Inr m' \<Rightarrow> content_scan clock yesterday (Suc i) m' lines)"

subsection \<open>The engagement computation (lines 405--452)\<close>

text \<open>\<open>url_visits = [(t, u) for t, u, s in session if u == url]\<close>\<close>

definition url_visits_of :: "string \<Rightarrow> (datetime \<times> string \<times> session_id) list \<Rightarrow> (datetime \<times> string) list" where
  "url_visits_of url session = map (\<lambda>(t, u, s). (t, u)) (filter (\<lambda>(t, u, s). u = url) session)"

text \<open>The loop \<open>for i in range(len(url_visits) - 1)\<close>, appending to \<open>engagement_times\<close>.\<close>

fun visit_gaps :: "rat list \<Rightarrow> (datetime \<times> string) list \<Rightarrow> nat list \<Rightarrow> rat list" where
  "visit_gaps engagement_times url_visits [] = engagement_times"
| "visit_gaps engagement_times url_visits (i # is) =
     (let time_diff = total_seconds (datetime_sub (fst (url_visits ! (i + 1))) (fst (url_visits ! i)))
      in visit_gaps (if time_diff > 0 \<and> time_diff < 3600 then engagement_times @ [time_diff]
                     else engagement_times) url_visits is)"

text \<open>The loop \<open>for e in engagements\<close>; \<open>key\<close> is the dict key named \<open>session_id\<close> in the source.\<close>

fun reading_times :: "rat list \<Rightarrow> string \<Rightarrow> engagement list \<Rightarrow> rat list" where
  "reading_times engagement_times key [] = engagement_times"
| "reading_times engagement_times key (e # es) =
     reading_times (if eng_ip e = hd (py_split key CHR ''_'' None)
                    then engagement_times @ [estimated_reading_time e] else engagement_times) key es"

text \<open>The loop over \<open>metrics['sessions'].items()\<close> that collects \<open>engagement_times\<close>.\<close>

fun collect_engagement_times ::
  "rat list \<Rightarrow> string \<Rightarrow> engagement list \<Rightarrow> (string \<times> (datetime \<times> string \<times> session_id) list) list
     \<Rightarrow> rat list" where
  "collect_engagement_times engagement_times url engagements [] = engagement_times"
| "collect_engagement_times engagement_times url engagements ((key, session) # rest) =
     (let url_visits = url_visits_of url session
      in collect_engagement_times
           (if length url_visits > 0
            then reading_times
                   (if length url_visits > 1
                    then visit_gaps engagement_times url_visits [0..<length url_visits - 1]
                    else engagement_times)
                   key engagements
            else engagement_times) url engagements rest)"

text \<open>The loop that counts \<open>(url_views, url_bounces)\<close>.\<close>

fun count_url_bounces ::
  "int \<times> int \<Rightarrow> string \<Rightarrow> (string \<times> (datetime \<times> string \<times> session_id) list) list \<Rightarrow> int \<times> int" where
  "count_url_bounces (url_views, url_bounces) url [] = (url_views, url_bounces)"
| "count_url_bounces (url_views, url_bounces) url ((key, session) # rest) =
     (let urls_in_session = map (\<lambda>(t, u, s). u) session
      in count_url_bounces
           (if url \<in> set urls_in_session
            then (url_views + 1,
                  if length (remdups urls_in_session) = 1 then url_bounces + 1 else url_bounces)
            else (url_views, url_bounces)) url rest)"

text \<open>The body of the loop over \<open>content_engagement.items()\<close> for one URL: its entry of
  \<open>engagement_rates\<close>, if it gets one.\<close>

definition engagement_rate_of ::
  "(string \<times> (datetime \<times> string \<times> session_id) list) list \<Rightarrow> string \<Rightarrow> engagement list
     \<Rightarrow> engagement_rate option" where
  "engagement_rate_of sessions_map url engagements =
     (if engagements = [] then None
      else
        (let engagement_times = collect_engagement_times [] url engagements sessions_map
         in if engagement_times = [] then None
            else
              (let avg_engagement = sum_list engagement_times / of_nat (length engagement_times);
                   (url_views, url_bounces) = count_url_bounces (0, 0) url sessions_map;
                   bounce_rate = (if url_views > 0
                                  then (of_int url_bounces / of_int url_views) * 100 else 0)
               in Some \<lparr>avg_time_on_page = avg_engagement,
                         bounce_rate = bounce_rate,
                         engagement_score =
                           (if bounce_rate < 100 then avg_engagement * (1 - (bounce_rate / 100))
                            else 0)\<rparr>)))"

fun compute_engagement_rates ::
  "(string \<times> (datetime \<times> string \<times> session_id) list) list \<Rightarrow> (string \<times> engagement list) list
     \<Rightarrow> (string \<times> engagement_rate) list \<Rightarrow> (string \<times> engagement_rate) list" where
  "compute_engagement_rates sessions_map [] rates = rates"
| "compute_engagement_rates sessions_map ((url, engagements) # rest) rates =
     compute_engagement_rates sessions_map rest
       (case engagement_rate_of sessions_map url engagements of
          None \<Rightarrow> rates
        | Some r \<Rightarrow> dict_set rates url r)"

text \<open>
  The content \<open>parse_access_log\<close> on the matched lines: the scan, then the engagement
  computation (the \<open>popular_content\<close> and \<open>trending\<close> post-processing in between does not
  touch what is read here). An exception inside the scan makes it return \<open>None\<close>.
\<close>

definition content_parse_access_log ::
  "(nat \<Rightarrow> datetime) \<Rightarrow> datetime \<Rightarrow> (log_entry \<times> string option) list \<Rightarrow> content_metrics option" where
  "content_parse_access_log clock start_now lines =
     (let yesterday = to_microseconds start_now - timedelta_days 1
      in case content_scan clock yesterday 0 initial_content_metrics lines of
           Inl err \<Rightarrow> None
         | Inr m \<Rightarrow>
             Some (m\<lparr>engagement_rates :=
                       compute_engagement_rates (c_sessions m) (content_engagement m)
                         (engagement_rates m)\<rparr>))"

section \<open>Reference definitions and example inputs\<close>

subsection \<open>Example inputs\<close>

text \<open>A run in which no address is internal, and a wall clock that stands still.\<close>

definition no_internal_ip :: "string \<Rightarrow> bool" where
  "no_internal_ip addr = False"

definition clock_at :: "datetime \<Rightarrow> nat \<Rightarrow> datetime" where
  "clock_at now i = now"

definition mk_datetime :: "int \<Rightarrow> int \<Rightarrow> int \<Rightarrow> int \<Rightarrow> int \<Rightarrow> int \<Rightarrow> datetime" where
  "mk_datetime y m d hh mm ss =
     \<lparr>dt_year = y, dt_month = m, dt_day = d, dt_hour = hh, dt_minute = mm, dt_second = ss,
      dt_microsecond = 0\<rparr>"

text \<open>
  The groups of the log line
  \<open>ADDR - - [TIME] "REQUEST" 200 SIZE "-" "curl/8.4.0"\<close>.
\<close>

definition log_line :: "string \<Rightarrow> string \<Rightarrow> string \<Rightarrow> string \<Rightarrow> log_entry" where
  "log_line addr t req sz =
     \<lparr>e_ip = addr, e_auth = ''-'', e_time_str = t, e_request = req, e_status_code = 200,
      e_response_size = sz, e_referrer = ''-'', e_user_agent = ''curl/8.4.0''\<rparr>"


subsection \<open>Sessions and bounce rate as the specification words them\<close>






subsection \<open>Time on page as the specification words it\<close>








subsection \<open>An invariant of the traffic scan\<close>

text \<open>Every client with a last-seen time has a non-empty current session.\<close>

definition sessions_ok :: "traffic_metrics \<Rightarrow> bool" where
  "sessions_ok m = (\<forall>addr \<in> dom (map_of (ip_sessions m)). dict_get (sessions m) addr [] \<noteq> [])"

section \<open>Properties of the security score\<close>

text \<open>
  Claim C5. In both reports the security score is 100 minus the attack penalty (one point
  per detected attack, at most 50), minus the authentication-failure penalty (five points
  per failure event, at most 20), minus the sensitive-resource penalty (two points per
  access, at most 20), and the result lies between 0 and 100.
\<close>

theorem security_score_capped_penalties:
  "generate_security_report_score m
     = 100 - min 50 (max 0 (attack_count m))
           - min 20 (max 0 (auth_failures m * 5))
           - min 20 (max 0 (sensitive_access m * 2))
   \<and> generate_plain_text_report_score m = generate_security_report_score m
   \<and> 0 \<le> generate_security_report_score m
   \<and> generate_security_report_score m \<le> 100"
  unfolding generate_security_report_score_def generate_plain_text_report_score_def Let_def
  by auto

section \<open>Properties of the percentile computation\<close>

lemma bit_length_0: "bit_length 0 = 0"
  by (simp add: bit_length.simps)

lemma bit_length_pos: "0 < n \<Longrightarrow> bit_length n = Suc (bit_length (n div 2))"
  by (subst bit_length.simps) simp

lemma bit_length_lower: "0 < n \<Longrightarrow> 2 ^ (bit_length n - 1) \<le> n"
proof (induction n rule: bit_length.induct)
  case (1 n)
  show ?case
  proof (cases "n div 2 = 0")
    case True
    with 1 show ?thesis by (simp add: bit_length_pos bit_length_0)
  next
    case False
    then have "2 ^ (bit_length (n div 2) - 1) \<le> n div 2" using 1 by simp
    moreover have "bit_length (n div 2) > 0" using False by (simp add: bit_length_pos)
    ultimately have "2 ^ (bit_length (n div 2)) \<le> 2 * (n div 2)"
      by (metis Suc_pred' mult_le_mono2 power_Suc)
    then show ?thesis using 1 by (simp add: bit_length_pos)
  qed
qed

lemma bit_length_upper: "n < 2 ^ bit_length n"
proof (induction n rule: bit_length.induct)
  case (1 n)
  show ?case
  proof (cases "n = 0")
    case True then show ?thesis by simp
  next
    case False
    then have "n div 2 < 2 ^ bit_length (n div 2)" using 1 by simp
    then have "n < 2 * 2 ^ bit_length (n div 2)" by linarith
    then show ?thesis using False by (simp add: bit_length_pos)
  qed
qed

text \<open>Rounding to nearest has relative error at most \<open>2 ^ - 53\<close>.\<close>

lemma round_to_double_upper: "round_to_double a * 2 ^ 53 \<le> a * (2 ^ 53 + 1)"
proof (cases "bit_length a \<le> 53")
  case True
  then show ?thesis by (simp add: round_to_double_def)
next
  case False
  define s where "s = bit_length a - 53"
  define q where "q = a div 2 ^ s"
  define r where "r = a mod 2 ^ s"
  have s1: "1 \<le> s" using False by (simp add: s_def)
  have apos: "0 < a" using False by (cases "a = 0") (simp_all add: bit_length_0)
  have a_eq: "a = q * 2 ^ s + r" unfolding q_def r_def by (rule div_mult_mod_eq[symmetric])
  have "2 ^ (bit_length a - 1) \<le> a" using bit_length_lower[OF apos] .
  moreover have "bit_length a - 1 = s + 52" using False by (simp add: s_def)
  ultimately have lo: "2 ^ (s + 52) \<le> a" by simp
  have half: "(2::nat) ^ s = 2 * 2 ^ (s - 1)"
    using s1 by (metis Suc_pred' less_eq_Suc_le One_nat_def power_Suc)
  have rnd: "round_to_double a \<le> a + 2 ^ (s - 1)"
  proof -
    have "round_to_double a
            = (if r < 2 ^ (s - 1) \<or> (r = 2 ^ (s - 1) \<and> even q) then q else q + 1) * 2 ^ s"
      using False by (simp add: round_to_double_def Let_def s_def q_def r_def)
    then show ?thesis using a_eq half by (auto simp: algebra_simps)
  qed
  have "2 ^ (s - 1) * (2::nat) ^ 53 = 2 ^ ((s - 1) + 53)" by (simp only: power_add)
  moreover have "(s - 1) + 53 = s + 52" using s1 by simp
  ultimately have "2 ^ (s - 1) * (2::nat) ^ 53 = 2 ^ (s + 52)" by simp
  then have "2 ^ (s - 1) * (2::nat) ^ 53 \<le> a" using lo by simp
  then have "(a + 2 ^ (s - 1)) * 2 ^ 53 \<le> a * (2 ^ 53 + 1)" by (simp add: algebra_simps)
  then show ?thesis using rnd by (meson le_trans mult_le_mono1)
qed

lemma int_len_times_less:
  assumes "0 < n" and "m * (2 ^ 53 + 1) ^ 2 < 2 ^ 159"
  shows "int_len_times n m < n"
proof -
  define f where "f = round_to_double n"
  define x where "x = round_to_double (f * m)"
  have 1: "f * 2 ^ 53 \<le> n * (2 ^ 53 + 1)" unfolding f_def by (rule round_to_double_upper)
  have 2: "x * 2 ^ 53 \<le> f * m * (2 ^ 53 + 1)" unfolding x_def by (rule round_to_double_upper)
  have "x * 2 ^ 53 * 2 ^ 53 \<le> f * m * (2 ^ 53 + 1) * 2 ^ 53" using 2 by simp
  also have "\<dots> = (f * 2 ^ 53) * (m * (2 ^ 53 + 1))" by (simp add: algebra_simps)
  also have "\<dots> \<le> (n * (2 ^ 53 + 1)) * (m * (2 ^ 53 + 1))" using 1 by (rule mult_le_mono1)
  also have "\<dots> = n * (m * (2 ^ 53 + 1) ^ 2)" by (simp add: power2_eq_square algebra_simps)
  also have "\<dots> < n * 2 ^ 159" using assms by simp
  finally have "x * 2 ^ 106 < n * 2 ^ 53 * 2 ^ 106" by (simp add: power_add[symmetric] mult.assoc)
  then have "x < n * 2 ^ 53" by simp
  then show ?thesis unfolding int_len_times_def f_def x_def
    by (simp add: less_mult_imp_div_less)
qed

lemmas eval_int_len_times =
  int_len_times_def round_to_double_def bit_length_0 bit_length_pos Let_def
  float_0_9_def float_0_95_def float_0_99_def

text \<open>
  Claim C10. For a non-empty list of response times the three indices
  \<open>int(N * 0.9)\<close>, \<open>int(N * 0.95)\<close> and \<open>int(N * 0.99)\<close>, computed in double precision,
  are strictly below the length \<open>N\<close>, so none of the lookups raises \<open>IndexError\<close> and the
  statistics are produced.
\<close>

theorem percentile_index_in_range:
  assumes "response_times \<noteq> []"
  shows "int_len_times (length response_times) float_0_9 < length response_times
       \<and> int_len_times (length response_times) float_0_95 < length response_times
       \<and> int_len_times (length response_times) float_0_99 < length response_times
       \<and> (\<exists>stats. calculate_response_time_stats response_times = Some (Inr stats))"
proof -
  have n: "0 < length response_times" using assms by simp
  have a: "int_len_times (length response_times) float_0_9 < length response_times"
    by (rule int_len_times_less[OF n]) (simp add: float_0_9_def)
  have b: "int_len_times (length response_times) float_0_95 < length response_times"
    by (rule int_len_times_less[OF n]) (simp add: float_0_95_def)
  have c: "int_len_times (length response_times) float_0_99 < length response_times"
    by (rule int_len_times_less[OF n]) (simp add: float_0_99_def)
  from a b c assms show ?thesis
    by (simp add: calculate_response_time_stats_def percentile_def py_index_def)
qed

theorem percentile_index_in_range_witness:
  "[3, 1, 2 :: nat] \<noteq> []
   \<and> int_len_times (length [3, 1, 2 :: nat]) float_0_9 < length [3, 1, 2 :: nat]
   \<and> int_len_times (length [3, 1, 2 :: nat]) float_0_95 < length [3, 1, 2 :: nat]
   \<and> int_len_times (length [3, 1, 2 :: nat]) float_0_99 < length [3, 1, 2 :: nat]
   \<and> (\<exists>stats. calculate_response_time_stats [3, 1, 2 :: nat] = Some (Inr stats))"
  using percentile_index_in_range[of "[3, 1, 2 :: nat]"] by simp

text \<open>
  The double-precision index agrees with the exact floor for every list of fewer than
  \<open>2 ^ 46\<close> samples: there the rounding of the product never crosses an integer.
\<close>

lemma bit_length_le: "n < 2 ^ k \<Longrightarrow> bit_length n \<le> k"
proof (cases "n = 0")
  case True then show ?thesis by (simp add: bit_length_0)
next
  case False
  assume "n < 2 ^ k"
  moreover have "2 ^ (bit_length n - 1) \<le> n" using False bit_length_lower by simp
  ultimately have "(2::nat) ^ (bit_length n - 1) < 2 ^ k" by linarith
  then have "bit_length n - 1 < k" by (simp only: power_strict_increasing_iff one_less_numeral_iff semiring_norm)
  then show ?thesis by simp
qed

lemma round_to_double_exact: "n < 2 ^ 53 \<Longrightarrow> round_to_double n = n"
  using bit_length_le[of n 53] by (simp add: round_to_double_def)

lemma round_to_double_ge_multiple:
  assumes "c \<le> a" and "2 ^ (bit_length a - 53) dvd c"
  shows "c \<le> round_to_double a"
proof (cases "bit_length a \<le> 53")
  case True
  then show ?thesis using assms by (simp add: round_to_double_def)
next
  case False
  define s where "s = bit_length a - 53"
  define q where "q = a div 2 ^ s"
  obtain c' where c': "c = c' * 2 ^ s" using assms(2) unfolding s_def by (auto simp: dvd_def mult.commute)
  have "c' \<le> q" unfolding q_def using assms(1) c'
    by (metis div_le_mono nonzero_mult_div_cancel_right power_not_zero zero_neq_numeral)
  then have "c \<le> q * 2 ^ s" using c' by simp
  moreover have "q * 2 ^ s \<le> round_to_double a"
    using False by (simp add: round_to_double_def Let_def s_def q_def)
  ultimately show ?thesis by simp
qed

lemma round_to_double_up:
  assumes "a \<le> c" and "2 ^ (bit_length a - 53) dvd c"
    and "2 * (c - a) < 2 ^ (bit_length a - 53)" and "53 < bit_length a"
  shows "c \<le> round_to_double a"
proof -
  define s where "s = bit_length a - 53"
  define q where "q = a div 2 ^ s"
  define r where "r = a mod 2 ^ s"
  have s1: "1 \<le> s" using assms(4) by (simp add: s_def)
  have half: "(2::nat) ^ s = 2 * 2 ^ (s - 1)"
    using s1 by (metis Suc_pred' less_eq_Suc_le One_nat_def power_Suc)
  obtain c' where c': "c = c' * 2 ^ s" using assms(2) unfolding s_def by (auto simp: dvd_def mult.commute)
  have a_eq: "a = q * 2 ^ s + r" unfolding q_def r_def by (rule div_mult_mod_eq[symmetric])
  have r_lt: "r < 2 ^ s" unfolding r_def by simp
  have rd: "round_to_double a
            = (if r < 2 ^ (s - 1) \<or> (r = 2 ^ (s - 1) \<and> even q) then q else q + 1) * 2 ^ s"
    using assms(4) by (simp add: round_to_double_def Let_def s_def q_def r_def)
  have close: "2 * (c - a) < 2 ^ s" using assms(3) by (simp add: s_def)
  show ?thesis
  proof (cases "c' \<le> q")
    case True
    then have "c \<le> q * 2 ^ s" using c' by simp
    then show ?thesis using rd by (auto simp: algebra_simps)
  next
    case False
    then have "q + 1 \<le> c'" by simp
    then have ge: "(q + 1) * 2 ^ s \<le> c" using c' by (metis mult_le_mono1)
    have "(q + 1) * 2 ^ s - a = 2 ^ s - r" using a_eq r_lt by (simp add: algebra_simps)
    then have "2 ^ s - r \<le> c - a" using ge by (metis diff_le_mono)
    then have "2 * (2 ^ s - r) < 2 ^ s" using close by linarith
    then have big: "2 ^ (s - 1) < r" using half r_lt by linarith
    have "c - a < 2 ^ s" using close by linarith
    then have "c < (q + 1) * 2 ^ s + 2 ^ s" using a_eq r_lt by (simp add: algebra_simps)
    then have "c' * 2 ^ s < (q + 2) * 2 ^ s" using c' by (simp add: algebra_simps)
    then have "c' < q + 2" using mult_less_cancel2 by blast
    then have "c' = q + 1" using \<open>q + 1 \<le> c'\<close> by simp
    then show ?thesis using rd big c' by (auto simp: algebra_simps)
  qed
qed

lemma int_len_times_eq:
  assumes n: "n < 2 ^ 53"
    and len: "n * m < 2 ^ 106"
    and lower: "k * 2 ^ 53 \<le> n * m
         \<or> (53 < bit_length (n * m) \<and> 2 * (k * 2 ^ 53 - n * m) < 2 ^ (bit_length (n * m) - 53))"
    and upper: "n * m * (2 ^ 53 + 1) < (k + 1) * 2 ^ 106"
  shows "int_len_times n m = k"
proof -
  define a where "a = n * m"
  define x where "x = round_to_double a"
  have x: "int_len_times n m = x div 2 ^ 53"
    by (simp add: int_len_times_def round_to_double_exact[OF n] a_def x_def)
  have "bit_length a \<le> 106" using len bit_length_le[of a 106] by (simp add: a_def)
  then have "bit_length a - 53 \<le> 53" by simp
  then have "(2::nat) ^ (bit_length a - 53) dvd 2 ^ 53" by (rule le_imp_power_dvd)
  then have dvd: "2 ^ (bit_length a - 53) dvd k * 2 ^ 53" by (rule dvd_mult)
  have lo: "k * 2 ^ 53 \<le> x"
  proof (cases "k * 2 ^ 53 \<le> a")
    case True
    then show ?thesis unfolding x_def using dvd by (rule round_to_double_ge_multiple)
  next
    case False
    then have "a \<le> k * 2 ^ 53" by simp
    moreover have "53 < bit_length a" "2 * (k * 2 ^ 53 - a) < 2 ^ (bit_length a - 53)"
      using lower False by (simp_all add: a_def)
    ultimately show ?thesis unfolding x_def using dvd round_to_double_up by blast
  qed
  have "x * 2 ^ 53 \<le> a * (2 ^ 53 + 1)" unfolding x_def by (rule round_to_double_upper)
  also have "\<dots> < (k + 1) * 2 ^ 106" using upper by (simp add: a_def)
  finally have "x * 2 ^ 53 < ((k + 1) * 2 ^ 53) * 2 ^ 53" by (simp add: mult.assoc)
  then have hi: "x < (k + 1) * 2 ^ 53" by simp
  have "x div 2 ^ 53 = k"
  proof (rule antisym)
    show "x div 2 ^ 53 \<le> k" using hi by (simp add: less_mult_imp_div_less)
    have "k * 2 ^ 53 div 2 ^ 53 \<le> x div 2 ^ 53" using lo by (rule div_le_mono)
    then show "k \<le> x div 2 ^ 53" by simp
  qed
  then show ?thesis using x by simp
qed


lemma int_len_times_0_9:
  assumes "0 < n" and "n < 2 ^ 46"
  shows "int_len_times n float_0_9 = 9 * n div 10"
proof -
  define k where "k = 9 * n div 10"
  define a where "a = n * 8106479329266893"
  have k1: "10 * k \<le> 9 * n" and k2: "9 * n < 10 * k + 10"
    unfolding k_def by simp_all
  have n53: "n < 2 ^ 53" using assms(2) by simp
  have len: "n * 8106479329266893 < 2 ^ 106" using assms(2) by simp
  have upper: "n * 8106479329266893 * (2 ^ 53 + 1) < (k + 1) * 2 ^ 106"
    using assms k2 by simp
  have lower: "k * 2 ^ 53 \<le> n * 8106479329266893
         \<or> (53 < bit_length (n * 8106479329266893)
            \<and> 2 * (k * 2 ^ 53 - n * 8106479329266893) < 2 ^ (bit_length (n * 8106479329266893) - 53))"
  proof (cases "10 * k = 9 * n")
    case False
    then have "10 * k + 1 \<le> 9 * n" using k1 by simp
    then have "k * 2 ^ 53 \<le> n * 8106479329266893" using assms(2) by simp
    then show ?thesis by simp
  next
    case True
    define P :: nat where "P = 2 ^ (bit_length a - 53)"
    have big: "53 < bit_length a"
    proof (rule ccontr)
      assume "\<not> 53 < bit_length a"
      then have "bit_length a \<le> 53" by simp
      then have "(2::nat) ^ bit_length a \<le> 2 ^ 53" by (rule power_increasing) simp
      then have "a < 2 ^ 53" using bit_length_upper[of a] by linarith
      then have "n \<le> 1" unfolding a_def by simp
      then have "n = 1" using assms(1) by simp
      then have "(10::nat) * k = 9" using True by simp
      then have "(10::nat) dvd 9" by (metis dvd_triv_left)
      then show False by simp
    qed
    have "P * 2 ^ 53 = 2 ^ ((bit_length a - 53) + 53)" unfolding P_def by (simp only: power_add)
    also have "(bit_length a - 53) + 53 = bit_length a" using big by simp
    finally have "a < P * 2 ^ 53" using bit_length_upper[of a] by simp
    then have "2 * (k * 2 ^ 53 - a) < P" using True assms(1) unfolding a_def by simp
    then show ?thesis using big unfolding a_def P_def by simp
  qed
  show ?thesis
    unfolding float_0_9_def k_def[symmetric]
    by (rule int_len_times_eq[OF n53 len lower upper])
qed

lemma int_len_times_0_95:
  assumes "0 < n" and "n < 2 ^ 46"
  shows "int_len_times n float_0_95 = 19 * n div 20"
proof -
  define k where "k = 19 * n div 20"
  define a where "a = n * 8556839292003942"
  have k1: "20 * k \<le> 19 * n" and k2: "19 * n < 20 * k + 20"
    unfolding k_def by simp_all
  have n53: "n < 2 ^ 53" using assms(2) by simp
  have len: "n * 8556839292003942 < 2 ^ 106" using assms(2) by simp
  have upper: "n * 8556839292003942 * (2 ^ 53 + 1) < (k + 1) * 2 ^ 106"
    using assms k2 by simp
  have lower: "k * 2 ^ 53 \<le> n * 8556839292003942
         \<or> (53 < bit_length (n * 8556839292003942)
            \<and> 2 * (k * 2 ^ 53 - n * 8556839292003942) < 2 ^ (bit_length (n * 8556839292003942) - 53))"
  proof (cases "20 * k = 19 * n")
    case False
    then have "20 * k + 1 \<le> 19 * n" using k1 by simp
    then have "k * 2 ^ 53 \<le> n * 8556839292003942" using assms(2) by simp
    then show ?thesis by simp
  next
    case True
    define P :: nat where "P = 2 ^ (bit_length a - 53)"
    have big: "53 < bit_length a"
    proof (rule ccontr)
      assume "\<not> 53 < bit_length a"
      then have "bit_length a \<le> 53" by simp
      then have "(2::nat) ^ bit_length a \<le> 2 ^ 53" by (rule power_increasing) simp
      then have "a < 2 ^ 53" using bit_length_upper[of a] by linarith
      then have "n \<le> 1" unfolding a_def by simp
      then have "n = 1" using assms(1) by simp
      then have "(20::nat) * k = 19" using True by simp
      then have "(20::nat) dvd 19" by (metis dvd_triv_left)
      then show False by simp
    qed
    have "P * 2 ^ 53 = 2 ^ ((bit_length a - 53) + 53)" unfolding P_def by (simp only: power_add)
    also have "(bit_length a - 53) + 53 = bit_length a" using big by simp
    finally have "a < P * 2 ^ 53" using bit_length_upper[of a] by simp
    then have "2 * (k * 2 ^ 53 - a) < P" using True assms(1) unfolding a_def by simp
    then show ?thesis using big unfolding a_def P_def by simp
  qed
  show ?thesis
    unfolding float_0_95_def k_def[symmetric]
    by (rule int_len_times_eq[OF n53 len lower upper])
qed

lemma int_len_times_0_99:
  assumes "0 < n" and "n < 2 ^ 46"
  shows "int_len_times n float_0_99 = 99 * n div 100"
proof -
  define k where "k = 99 * n div 100"
  define a where "a = n * 8917127262193582"
  have k1: "100 * k \<le> 99 * n" and k2: "99 * n < 100 * k + 100"
    unfolding k_def by simp_all
  have n53: "n < 2 ^ 53" using assms(2) by simp
  have len: "n * 8917127262193582 < 2 ^ 106" using assms(2) by simp
  have upper: "n * 8917127262193582 * (2 ^ 53 + 1) < (k + 1) * 2 ^ 106"
    using assms k2 by simp
  have lower: "k * 2 ^ 53 \<le> n * 8917127262193582
         \<or> (53 < bit_length (n * 8917127262193582)
            \<and> 2 * (k * 2 ^ 53 - n * 8917127262193582) < 2 ^ (bit_length (n * 8917127262193582) - 53))"
  proof (cases "100 * k = 99 * n")
    case False
    then have "100 * k + 1 \<le> 99 * n" using k1 by simp
    then have "k * 2 ^ 53 \<le> n * 8917127262193582" using assms(2) by simp
    then show ?thesis by simp
  next
    case True
    define P :: nat where "P = 2 ^ (bit_length a - 53)"
    have big: "53 < bit_length a"
    proof (rule ccontr)
      assume "\<not> 53 < bit_length a"
      then have "bit_length a \<le> 53" by simp
      then have "(2::nat) ^ bit_length a \<le> 2 ^ 53" by (rule power_increasing) simp
      then have "a < 2 ^ 53" using bit_length_upper[of a] by linarith
      then have "n \<le> 1" unfolding a_def by simp
      then have "n = 1" using assms(1) by simp
      then have "(100::nat) * k = 99" using True by simp
      then have "(100::nat) dvd 99" by (metis dvd_triv_left)
      then show False by simp
    qed
    have "P * 2 ^ 53 = 2 ^ ((bit_length a - 53) + 53)" unfolding P_def by (simp only: power_add)
    also have "(bit_length a - 53) + 53 = bit_length a" using big by simp
    finally have "a < P * 2 ^ 53" using bit_length_upper[of a] by simp
    then have "2 * (k * 2 ^ 53 - a) < P" using True assms(1) unfolding a_def by simp
    then show ?thesis using big unfolding a_def P_def by simp
  qed
  show ?thesis
    unfolding float_0_99_def k_def[symmetric]
    by (rule int_len_times_eq[OF n53 len lower upper])
qed


lemma floor_fraction_of_nat: "0 < d \<Longrightarrow> nat \<lfloor>(of_nat n :: rat) * (of_nat c / of_nat d)\<rfloor> = c * n div d"
proof -
  have "(of_nat n :: rat) * (of_nat c / of_nat d) = of_nat (c * n) / of_nat d"
    by (simp add: mult.commute)
  then have "\<lfloor>(of_nat n :: rat) * (of_nat c / of_nat d)\<rfloor> = \<lfloor>(of_nat (c * n) :: rat) / of_nat d\<rfloor>"
    by (simp only:)
  also have "\<dots> = int (c * n div d)" by (rule floor_divide_of_nat_eq)
  finally show ?thesis by simp
qed

text \<open>
  From about \<open>1.4 * 10 ^ 14\<close> samples on, the double-precision product can round across an
  integer, and the index is then one more than the exact floor.
\<close>

lemma float_index_deviates_for_huge_lists:
  "int_len_times 142244726845701 float_0_99 = 140822279577244
   \<and> nat \<lfloor>(142244726845701 :: rat) * (99 / 100)\<rfloor> = 140822279577243"
proof -
  have "nat \<lfloor>(of_nat 142244726845701 :: rat) * (of_nat 99 / of_nat 100)\<rfloor>
          = 99 * 142244726845701 div 100"
    by (rule floor_fraction_of_nat) simp
  then have "nat \<lfloor>(142244726845701 :: rat) * (99 / 100)\<rfloor> = 140822279577243" by simp
  moreover have "int_len_times 142244726845701 float_0_99 = 140822279577244"
    by (simp add: eval_int_len_times)
  ultimately show ?thesis by simp
qed

text \<open>
  Claim C3. For a non-empty list of samples, each reported percentile is the element of
  the ascending-sorted samples at the 0-indexed position obtained by truncating \<open>N * p\<close>,
  for \<open>p\<close> = 0.9, 0.95 and 0.99: no rounding and no interpolation. The position is computed
  in double precision, and for every list of fewer than \<open>2 ^ 46\<close> samples it is exactly
  \<open>floor (N * p)\<close>. For the samples 0.1, 0.2, 0.5, 0.9, 1.2, 3.0 of the specification the
  90th percentile is the element at index 5, which is 3.0.
\<close>

theorem percentile_is_truncated_index:
  assumes "response_times \<noteq> []"
  shows "\<exists>stats. calculate_response_time_stats response_times = Some (Inr stats)
     \<and> p90 stats = sort response_times ! int_len_times (length response_times) float_0_9
     \<and> p95 stats = sort response_times ! int_len_times (length response_times) float_0_95
     \<and> p99 stats = sort response_times ! int_len_times (length response_times) float_0_99
     \<and> (length response_times < 2 ^ 46 \<longrightarrow>
           int_len_times (length response_times) float_0_9
             = nat \<lfloor>(of_nat (length response_times) :: rat) * (9 / 10)\<rfloor>
         \<and> int_len_times (length response_times) float_0_95
             = nat \<lfloor>(of_nat (length response_times) :: rat) * (95 / 100)\<rfloor>
         \<and> int_len_times (length response_times) float_0_99
             = nat \<lfloor>(of_nat (length response_times) :: rat) * (99 / 100)\<rfloor>)"
proof -
  define n where "n = length response_times"
  have n: "0 < n" using assms by (simp add: n_def)
  have a: "int_len_times n float_0_9 < n"
    by (rule int_len_times_less[OF n]) (simp add: float_0_9_def)
  have b: "int_len_times n float_0_95 < n"
    by (rule int_len_times_less[OF n]) (simp add: float_0_95_def)
  have c: "int_len_times n float_0_99 < n"
    by (rule int_len_times_less[OF n]) (simp add: float_0_99_def)
  have f90: "nat \<lfloor>(of_nat n :: rat) * (9 / 10)\<rfloor> = 9 * n div 10"
    using floor_fraction_of_nat[of 10 n 9] by simp
  have f95: "nat \<lfloor>(of_nat n :: rat) * (95 / 100)\<rfloor> = 19 * n div 20"
    using floor_fraction_of_nat[of 20 n 19] by simp
  have f99: "nat \<lfloor>(of_nat n :: rat) * (99 / 100)\<rfloor> = 99 * n div 100"
    using floor_fraction_of_nat[of 100 n 99] by simp
  have exact: "n < 2 ^ 46 \<longrightarrow>
           int_len_times n float_0_9 = nat \<lfloor>(of_nat n :: rat) * (9 / 10)\<rfloor>
         \<and> int_len_times n float_0_95 = nat \<lfloor>(of_nat n :: rat) * (95 / 100)\<rfloor>
         \<and> int_len_times n float_0_99 = nat \<lfloor>(of_nat n :: rat) * (99 / 100)\<rfloor>"
    using n int_len_times_0_9[of n] int_len_times_0_95[of n] int_len_times_0_99[of n]
    by (simp only: f90 f95 f99) blast
  from a b c assms exact show ?thesis
    by (simp add: calculate_response_time_stats_def percentile_def py_index_def n_def[symmetric])
qed

theorem percentile_is_truncated_index_witness:
  "[1/10, 2/10, 5/10, 9/10, 12/10, 3 :: rat] \<noteq> []
   \<and> length [1/10, 2/10, 5/10, 9/10, 12/10, 3 :: rat] < 2 ^ 46
   \<and> (\<exists>stats. calculate_response_time_stats [1/10, 2/10, 5/10, 9/10, 12/10, 3 :: rat] = Some (Inr stats)
        \<and> p90 stats = 3)"
proof -
  define xs :: "rat list" where "xs = [1/10, 2/10, 5/10, 9/10, 12/10, 3]"
  have h1: "xs \<noteq> []" and h2: "length xs < 2 ^ 46" by (simp_all add: xs_def)
  from percentile_is_truncated_index[OF h1] h2 obtain stats
    where s: "calculate_response_time_stats xs = Some (Inr stats)"
      and p: "p90 stats = sort xs ! int_len_times (length xs) float_0_9"
      and i: "int_len_times (length xs) float_0_9 = nat \<lfloor>(of_nat (length xs) :: rat) * (9 / 10)\<rfloor>"
    by blast
  have "nat \<lfloor>(of_nat (length xs) :: rat) * (9 / 10)\<rfloor> = 9 * length xs div 10"
    using floor_fraction_of_nat[of 10 "length xs" 9] by simp
  also have "\<dots> = 5" by (simp add: xs_def)
  finally have "nat \<lfloor>(of_nat (length xs) :: rat) * (9 / 10)\<rfloor> = 5" .
  moreover have "sort xs ! 5 = 3" by (simp add: xs_def)
  ultimately have "p90 stats = 3" using p i by simp
  then show ?thesis using h1 h2 s unfolding xs_def by blast
qed

section \<open>Properties of the threat matcher\<close>

subsection \<open>The matcher decides the patterns\<close>

text \<open>
  \<open>match_here\<close> holds iff some prefix of the string is matched by the pattern, and
  \<open>re_search\<close> iff some substring is.
\<close>

lemma match_here_iff: "match_here p s \<longleftrightarrow> (\<exists>u v. s = u @ v \<and> u \<in> pattern_lang p)"
proof (induction p s rule: match_here.induct)
  case (1 s)
  then show ?case by simp
next
  case (2 c p)
  then show ?case by simp
next
  case (3 c p x xs)
  show ?case
  proof (cases "class_match c x")
    case True
    then have "match_here ((c, One) # p) (x # xs) = (\<exists>u v. xs = u @ v \<and> u \<in> pattern_lang p)"
      using 3 by simp
    also have "\<dots> = (\<exists>u v. x # xs = u @ v \<and> u \<in> pattern_lang ((c, One) # p))"
      using True by (auto simp: Cons_eq_append_conv) 
    finally show ?thesis .
  next
    case False
    then show ?thesis by (auto simp: Cons_eq_append_conv)
  qed
next
  case (4 c p)
  then show ?case by auto
next
  case (5 c p x xs)
  show ?case
  proof (cases "match_here p (x # xs)")
    case True
    then obtain u v where "x # xs = u @ v" "u \<in> pattern_lang p" using 5(1) by blast
    then have "x # xs = ([] @ u) @ v \<and> list_all (class_match c) [] \<and> u \<in> pattern_lang p" by simp
    then have "\<exists>u v. x # xs = u @ v \<and> u \<in> pattern_lang ((c, Star) # p)"
      by (metis (mono_tags, lifting) pattern_lang.simps(3) mem_Collect_eq)
    then show ?thesis using True by simp
  next
    case nm: False
    show ?thesis
    proof (cases "class_match c x")
      case True
      have ih: "match_here ((c, Star) # p) xs = (\<exists>u v. xs = u @ v \<and> u \<in> pattern_lang ((c, Star) # p))"
        using 5(2)[OF nm True] .
      have "(\<exists>u v. x # xs = u @ v \<and> u \<in> pattern_lang ((c, Star) # p))
            = (\<exists>u v. xs = u @ v \<and> u \<in> pattern_lang ((c, Star) # p))"
      proof
        assume "\<exists>u v. x # xs = u @ v \<and> u \<in> pattern_lang ((c, Star) # p)"
        then obtain a w v where e: "x # xs = (a @ w) @ v" and a: "list_all (class_match c) a"
          and w: "w \<in> pattern_lang p" by auto
        show "\<exists>u v. xs = u @ v \<and> u \<in> pattern_lang ((c, Star) # p)"
        proof (cases a)
          case Nil
          then have "x # xs = w @ v" using e by simp
          then have "match_here p (x # xs)" using w 5(1) by blast
          then show ?thesis using nm by simp
        next
          case (Cons a0 as)
          then have x: "xs = (as @ w) @ v" and "list_all (class_match c) as" using e a by simp_all
          then have "as @ w \<in> pattern_lang ((c, Star) # p)" using w by auto
          then show ?thesis using x by blast
        qed
      next
        assume "\<exists>u v. xs = u @ v \<and> u \<in> pattern_lang ((c, Star) # p)"
        then obtain a w v where e: "xs = (a @ w) @ v" and a: "list_all (class_match c) a"
          and w: "w \<in> pattern_lang p" by auto
        then have "x # xs = ((x # a) @ w) @ v" and "list_all (class_match c) (x # a)"
          using True by simp_all
        then show "\<exists>u v. x # xs = u @ v \<and> u \<in> pattern_lang ((c, Star) # p)"
          using w by (metis (mono_tags, lifting) pattern_lang.simps(3) mem_Collect_eq)
      qed
      then show ?thesis using nm True ih by simp
    next
      case False
      have "\<not> (\<exists>u v. x # xs = u @ v \<and> u \<in> pattern_lang ((c, Star) # p))"
      proof
        assume "\<exists>u v. x # xs = u @ v \<and> u \<in> pattern_lang ((c, Star) # p)"
        then obtain a w v where e: "x # xs = (a @ w) @ v" and a: "list_all (class_match c) a"
          and w: "w \<in> pattern_lang p" by auto
        show False
        proof (cases a)
          case Nil
          then have "x # xs = w @ v" using e by simp
          then have "match_here p (x # xs)" using w 5(1) by blast
          then show ?thesis using nm by simp
        next
          case (Cons a0 as)
          then show ?thesis using e a False by simp
        qed
      qed
      then show ?thesis using nm False by simp
    qed
  qed
next
  case (6 c p)
  then show ?case by auto
next
  case (7 c p x xs)
  show ?case
  proof (cases "class_match c x")
    case True
    have ih: "match_here ((c, Star) # p) xs = (\<exists>u v. xs = u @ v \<and> u \<in> pattern_lang ((c, Star) # p))"
      using 7[OF True] .
    have "(\<exists>u v. x # xs = u @ v \<and> u \<in> pattern_lang ((c, Plus) # p))
          = (\<exists>u v. xs = u @ v \<and> u \<in> pattern_lang ((c, Star) # p))"
    proof
      assume "\<exists>u v. x # xs = u @ v \<and> u \<in> pattern_lang ((c, Plus) # p)"
      then obtain a w v where e: "x # xs = (a @ w) @ v" and a: "list_all (class_match c) a" "a \<noteq> []"
        and w: "w \<in> pattern_lang p" by auto
      then obtain a0 as where "a = a0 # as" by (cases a) auto
      then have x: "xs = (as @ w) @ v" and "list_all (class_match c) as" using e a by simp_all
      then have "as @ w \<in> pattern_lang ((c, Star) # p)" using w by auto
      then show "\<exists>u v. xs = u @ v \<and> u \<in> pattern_lang ((c, Star) # p)" using x by blast
    next
      assume "\<exists>u v. xs = u @ v \<and> u \<in> pattern_lang ((c, Star) # p)"
      then obtain a w v where e: "xs = (a @ w) @ v" and a: "list_all (class_match c) a"
        and w: "w \<in> pattern_lang p" by auto
      then have "x # xs = ((x # a) @ w) @ v" and "list_all (class_match c) (x # a)" and "x # a \<noteq> []"
        using True by simp_all
      then show "\<exists>u v. x # xs = u @ v \<and> u \<in> pattern_lang ((c, Plus) # p)"
        using w by (metis (mono_tags, lifting) pattern_lang.simps(4) mem_Collect_eq)
    qed
    then show ?thesis using True ih by simp
  next
    case False
    have "\<not> (\<exists>u v. x # xs = u @ v \<and> u \<in> pattern_lang ((c, Plus) # p))"
    proof
      assume "\<exists>u v. x # xs = u @ v \<and> u \<in> pattern_lang ((c, Plus) # p)"
      then obtain a w v where e: "x # xs = (a @ w) @ v" and a: "list_all (class_match c) a" "a \<noteq> []"
        and w: "w \<in> pattern_lang p" by auto
      then obtain a0 as where "a = a0 # as" by (cases a) auto
      then show False using e a False by simp
    qed
    then show ?thesis using False by simp
  qed
qed

lemma re_search_iff: "re_search p s \<longleftrightarrow> (\<exists>a u b. s = a @ u @ b \<and> u \<in> pattern_lang p)"
proof (induction s)
  case Nil
  then show ?case by (simp add: match_here_iff)
next
  case (Cons x xs)
  have "(\<exists>a u b. x # xs = a @ u @ b \<and> u \<in> pattern_lang p)
        = ((\<exists>u b. x # xs = u @ b \<and> u \<in> pattern_lang p)
           \<or> (\<exists>a u b. xs = a @ u @ b \<and> u \<in> pattern_lang p))"
  proof
    assume "\<exists>a u b. x # xs = a @ u @ b \<and> u \<in> pattern_lang p"
    then obtain a u b where e: "x # xs = a @ u @ b" and u: "u \<in> pattern_lang p" by blast
    show "(\<exists>u b. x # xs = u @ b \<and> u \<in> pattern_lang p)
           \<or> (\<exists>a u b. xs = a @ u @ b \<and> u \<in> pattern_lang p)"
    proof (cases a)
      case Nil
      then show ?thesis using e u by auto
    next
      case (Cons a0 as)
      then have "xs = as @ u @ b" using e by simp
      then show ?thesis using u by blast
    qed
  next
    assume "(\<exists>u b. x # xs = u @ b \<and> u \<in> pattern_lang p)
           \<or> (\<exists>a u b. xs = a @ u @ b \<and> u \<in> pattern_lang p)"
    then show "\<exists>a u b. x # xs = a @ u @ b \<and> u \<in> pattern_lang p"
    proof
      assume "\<exists>u b. x # xs = u @ b \<and> u \<in> pattern_lang p"
      then obtain u b where "x # xs = [] @ u @ b" "u \<in> pattern_lang p" by auto
      then show ?thesis by blast
    next
      assume "\<exists>a u b. xs = a @ u @ b \<and> u \<in> pattern_lang p"
      then obtain a u b where "x # xs = (x # a) @ u @ b" "u \<in> pattern_lang p" by auto
      then show ?thesis by blast
    qed
  qed
  moreover have "re_search p (x # xs) \<longleftrightarrow> match_here p (x # xs) \<or> re_search p xs" by simp
  ultimately show ?case by (simp only: Cons.IH match_here_iff)
qed

subsection \<open>The loops of \<open>detect_threats\<close>\<close>

lemma scan_targets_eq:
  "scan_targets p ts tt det = (if list_ex (re_search p) ts then det @ [tt] else det)"
  by (induction ts) simp_all

lemma scan_patterns_eq:
  "tt \<notin> set det \<Longrightarrow>
   scan_patterns ps ts tt det = (if list_ex (\<lambda>p. list_ex (re_search p) ts) ps then det @ [tt] else det)"
  by (induction ps) (simp_all add: scan_targets_eq Let_def)

lemma scan_threat_types_eq:
  "distinct (map fst table) \<Longrightarrow> set det \<inter> set (map fst table) = {} \<Longrightarrow>
   scan_threat_types table ts det = det @ map fst (filter (category_matches ts) table)"
proof (induction table arbitrary: det)
  case Nil
  then show ?case by simp
next
  case (Cons a table)
  obtain tt ps where a: "a = (tt, ps)" by (cases a)
  have tt: "tt \<notin> set det" using Cons.prems a by auto
  let ?det = "scan_patterns ps ts tt det"
  have det': "?det = (if category_matches ts a then det @ [tt] else det)"
    using scan_patterns_eq[OF tt] by (simp add: a category_matches_def)
  have "set ?det \<inter> set (map fst table) = {}" using Cons.prems a det' by auto
  moreover have "distinct (map fst table)" using Cons.prems by simp
  ultimately have "scan_threat_types table ts ?det = ?det @ map fst (filter (category_matches ts) table)"
    by (rule Cons.IH[rotated])
  then show ?case using det' by (simp add: a)
qed

lemma distinct_THREAT_PATTERNS: "distinct (map fst THREAT_PATTERNS)"
  by (simp add: THREAT_PATTERNS_def)

lemma detect_threats_eq:
  "detect_threats request user_agent referrer =
     map fst (filter (category_matches [request, user_agent, if referrer \<noteq> ''-'' then referrer else ''''])
                THREAT_PATTERNS)"
  unfolding detect_threats_def Let_def
  using scan_threat_types_eq[OF distinct_THREAT_PATTERNS, of "[]"] by simp


lemma no_pattern_matches_dash:
  "list_all (\<lambda>(tt, ps). list_all (\<lambda>p. \<not> re_search p ''-'' \<and> \<not> re_search p []) ps) THREAT_PATTERNS"
  by code_simp

lemma category_matches_referrer:
  assumes "(tt, ps) \<in> set THREAT_PATTERNS"
  shows "category_matches [request, user_agent, if referrer \<noteq> ''-'' then referrer else []] (tt, ps)
         \<longleftrightarrow> (\<exists>p\<in>set ps. \<exists>t\<in>{request, user_agent, referrer}. re_search p t)"
proof -
  from no_pattern_matches_dash
  have "\<forall>x\<in>set THREAT_PATTERNS.
          (\<lambda>(tt, ps). \<forall>p\<in>set ps. \<not> re_search p ''-'' \<and> \<not> re_search p []) x"
    unfolding list_all_iff .
  then have nd: "\<And>p. p \<in> set ps \<Longrightarrow> \<not> re_search p ''-'' \<and> \<not> re_search p []"
    using assms by (force simp del: re_search.simps)
  show ?thesis
  proof (cases "referrer = ''-''")
    case True
    then show ?thesis using nd
      by (auto simp add: category_matches_def list_ex_iff simp del: re_search.simps)
  next
    case False
    then show ?thesis
      by (auto simp add: category_matches_def list_ex_iff simp del: re_search.simps)
  qed
qed

lemma sql_example:
  "detect_threats ''GET /x?id=1 UNION SELECT * FROM users'' [] ''-'' = [''SQL Injection'']"
  by code_simp

lemma about_example: "detect_threats ''GET /about'' [] ''-'' = []"
  by code_simp

text \<open>
  Claim C8. \<open>detect_threats\<close> returns each category at most once, and a category is in the
  result if and only if one of its patterns matches the request line, the user agent or
  the referrer. The request \<open>GET /x?id=1 UNION SELECT * FROM users\<close> is flagged as
  \<open>SQL Injection\<close> whatever the other two strings are, and as nothing else when they are
  empty; the request \<open>GET /about\<close> (with an empty user agent and no referrer) is flagged
  as nothing.
\<close>

theorem detect_threats_categories:
  "distinct (detect_threats request user_agent referrer)
   \<and> (\<forall>category. category \<in> set (detect_threats request user_agent referrer) \<longleftrightarrow>
         (\<exists>patterns. (category, patterns) \<in> set THREAT_PATTERNS
            \<and> (\<exists>pattern\<in>set patterns. \<exists>target\<in>{request, user_agent, referrer}.
                  re_search pattern target)))
   \<and> ''SQL Injection'' \<in> set (detect_threats ''GET /x?id=1 UNION SELECT * FROM users'' user_agent referrer)
   \<and> detect_threats ''GET /x?id=1 UNION SELECT * FROM users'' [] ''-'' = [''SQL Injection'']
   \<and> detect_threats ''GET /about'' [] ''-'' = []"
proof (intro conjI allI)
  show "distinct (detect_threats request user_agent referrer)"
    unfolding detect_threats_eq using distinct_THREAT_PATTERNS by (rule distinct_map_filter)
  show mem: "category \<in> set (detect_threats request user_agent referrer) \<longleftrightarrow>
         (\<exists>patterns. (category, patterns) \<in> set THREAT_PATTERNS
            \<and> (\<exists>pattern\<in>set patterns. \<exists>target\<in>{request, user_agent, referrer}.
                  re_search pattern target))" for category request user_agent referrer
  proof -
    let ?ts = "[request, user_agent, if referrer \<noteq> ''-'' then referrer else []]"
    have "category \<in> set (detect_threats request user_agent referrer) \<longleftrightarrow>
            (\<exists>patterns. (category, patterns) \<in> set THREAT_PATTERNS
               \<and> category_matches ?ts (category, patterns))"
      unfolding detect_threats_eq by force
    then show ?thesis using category_matches_referrer by blast
  qed
  let ?p = "lit ''union'' @ [(Space, Plus)] @ lit ''select''"
  let ?ps = "[?p,
         lit ''select'' @ [(Any_Char, Plus)] @ lit ''from'',
         lit ''1=1'',
         lit ''or'' @ [(Space, Plus)] @ lit ''1'' @ [(Space, Star)] @ lit ''='',
         lit ''drop'' @ [(Space, Plus)] @ lit ''table'']"
  let ?ex = "''GET /x?id=1 UNION SELECT * FROM users''"
  have a: "(''SQL Injection'', ?ps) \<in> set THREAT_PATTERNS" by (simp add: THREAT_PATTERNS_def)
  have b: "?p \<in> set ?ps" by (simp del: append.simps)
  have c: "re_search ?p ?ex" by code_simp
  have d: "?ex \<in> {?ex, user_agent, referrer}" by (rule insertI1)
  from a b c d
  have "\<exists>patterns. (''SQL Injection'', patterns) \<in> set THREAT_PATTERNS
            \<and> (\<exists>pattern\<in>set patterns. \<exists>target\<in>{?ex, user_agent, referrer}.
                  re_search pattern target)"
    by blast
  then show "''SQL Injection'' \<in> set (detect_threats ?ex user_agent referrer)"
    unfolding mem .
  show "detect_threats ''GET /x?id=1 UNION SELECT * FROM users'' [] ''-'' = [''SQL Injection'']"
    by (rule sql_example)
  show "detect_threats ''GET /about'' [] ''-'' = []" by (rule about_example)
qed

theorem detect_threats_categories_witness:
  "''SQL Injection'' \<in> set (detect_threats ''GET /x?id=1 UNION SELECT * FROM users'' ''sqlmap/1.7'' ''-'')
   \<and> (\<exists>patterns. (''Suspicious User Agent'', patterns) \<in> set THREAT_PATTERNS
         \<and> (\<exists>pattern\<in>set patterns.
               \<exists>target\<in>{''GET /x?id=1 UNION SELECT * FROM users'', ''sqlmap/1.7'', ''-''}.
                 re_search pattern target))
   \<and> distinct (detect_threats ''GET /x?id=1 UNION SELECT * FROM users'' ''sqlmap/1.7'' ''-'')"
proof -
  have "detect_threats ''GET /x?id=1 UNION SELECT * FROM users'' ''sqlmap/1.7'' ''-''
        = [''SQL Injection'', ''Suspicious User Agent'']"
    by code_simp
  then have "''Suspicious User Agent''
        \<in> set (detect_threats ''GET /x?id=1 UNION SELECT * FROM users'' ''sqlmap/1.7'' ''-'')"
    by simp
  then show ?thesis
    using detect_threats_categories[of "''GET /x?id=1 UNION SELECT * FROM users''" "''sqlmap/1.7''" "''-''"]
    by blast
qed

section \<open>Properties of the timestamp parser\<close>

lemma split_aux_no_sep: "sep \<notin> set s \<Longrightarrow> split_aux sep n cur s = [cur @ s]"
  by (induction s arbitrary: cur) auto

lemma parse_time_try_no_colon: "CHR '':'' \<notin> set time_str \<Longrightarrow> parse_time_try time_str = Inl ValueError"
  by (simp add: parse_time_try_def py_split_def split_aux_no_sep)






text \<open>
  Claim C1, as stated, fails. The string \<open>not a timestamp\<close> does not parse, and
  \<open>parse_time\<close> answers with the wall clock, hour 0 and weekday 0: the very triple that the
  well-formed timestamp of Monday 1 January 2024, 00:00:00, parses to. Nothing in the
  result tells the caller that the parse failed.
\<close>

theorem parse_time_failure_counterexample:
  "parse_time_try ''not a timestamp'' = Inl ValueError
   \<and> parse_time (mk_datetime 2024 1 1 0 0 0) ''not a timestamp'' = (mk_datetime 2024 1 1 0 0 0, 0, 0)
   \<and> parse_time_try ''01/Jan/2024:00:00:00 +0000'' = Inr (mk_datetime 2024 1 1 0 0 0, 0, 0)
   \<and> parse_time (mk_datetime 2030 6 15 12 0 0) ''01/Jan/2024:00:00:00 +0000''
       = parse_time (mk_datetime 2024 1 1 0 0 0) ''not a timestamp''"
  by code_simp

text \<open>
  Claim C1, amended. For every timestamp string that cannot be parsed (any string
  without a colon is one), \<open>parse_time\<close> returns the current wall-clock time as the
  timestamp, with hour 0 and weekday 0; for every string that parses, the result is the
  parsed one, whatever the wall clock says.
\<close>

theorem parse_time_failure_returns_now:
  "(parse_time_try time_str = Inl err \<longrightarrow> parse_time now time_str = (now, 0, 0))
   \<and> (CHR '':'' \<notin> set time_str \<longrightarrow> parse_time now time_str = (now, 0, 0))
   \<and> (parse_time_try time_str = Inr result \<longrightarrow> parse_time now time_str = result)"
  using parse_time_try_no_colon[of time_str] by (auto simp add: parse_time_def)

theorem parse_time_failure_returns_now_witness:
  "parse_time_try ''not a timestamp'' = Inl ValueError
   \<and> CHR '':'' \<notin> set ''not a timestamp''
   \<and> parse_time (mk_datetime 2024 1 1 0 0 0) ''not a timestamp'' = (mk_datetime 2024 1 1 0 0 0, 0, 0)"
proof -
  have f: "parse_time_try ''not a timestamp'' = Inl ValueError" by code_simp
  have g: "CHR '':'' \<notin> set ''not a timestamp''" by simp
  from f g
    parse_time_failure_returns_now[of "''not a timestamp''" ValueError "mk_datetime 2024 1 1 0 0 0"]
  show ?thesis by blast
qed

section \<open>Properties of the session tracking\<close>

subsection \<open>The traffic scan returns\<close>

lemma count_hit_keeps [simp]:
  "sessions (count_hit m e hh dow mth url) = sessions m"
  "ip_sessions (count_hit m e hh dow mth url) = ip_sessions m"
  "entry_pages (count_hit m e hh dow mth url) = entry_pages m"
  "exit_pages (count_hit m e hh dow mth url) = exit_pages m"
  "paths (count_hit m e hh dow mth url) = paths m"
  by (simp_all add: count_hit_def Let_def)

lemma map_of_dict_set: "map_of (dict_set d k v) = (map_of d)(k \<mapsto> v)"
  by (induction d) auto

lemma dict_get_dict_set: "dict_get (dict_set d k v) k' dflt = (if k' = k then v else dict_get d k' dflt)"
  by (simp add: dict_get_def map_of_dict_set)

text \<open>Traffic analyzer: a known client's event extends the session iff the gap is at most the timeout.\<close>

lemma track_session_extends_iff:
  assumes "map_of (ip_sessions m) addr = Some last_time"
    and "dict_get (sessions m) addr [] = first # others"
  shows "\<exists>m'. track_session m addr ts url st sc = Inr m'
     \<and> (datetime_sub ts last_time \<le> session_timeout \<longrightarrow>
           dict_get (sessions m') addr [] = (first # others) @ [(ts, url, snd (snd first))])
     \<and> (datetime_sub ts last_time > session_timeout \<longrightarrow>
           dict_get (sessions m') addr [] = [(ts, url, (addr, ts))])"
  using assms by (auto simp add: track_session_def Let_def dict_get_dict_set)

lemma track_session_ok:
  assumes "sessions_ok m"
  shows "\<exists>m'. track_session m addr ts url st sc = Inr m' \<and> sessions_ok m'"
proof (cases "map_of (ip_sessions m) addr")
  case None
  then show ?thesis using assms
    by (auto simp add: track_session_def Let_def sessions_ok_def dict_get_dict_set map_of_dict_set dom_def)
next
  case (Some last_time)
  then have "dict_get (sessions m) addr [] \<noteq> []" using assms by (auto simp: sessions_ok_def)
  then obtain first others where f: "dict_get (sessions m) addr [] = first # others"
    by (cases "dict_get (sessions m) addr []") auto
  show ?thesis using Some f assms
    by (auto simp add: track_session_def Let_def sessions_ok_def dict_get_dict_set map_of_dict_set dom_def)
qed

lemma process_entry_ok:
  assumes "sessions_ok m"
  shows "\<exists>m'. process_entry internal now m e = Inr m' \<and> sessions_ok m'"
proof (cases "internal (e_ip e)")
  case True
  then show ?thesis using assms by (simp add: process_entry_def sessions_ok_def)
next
  case False
  obtain ts hh dow where p: "parse_time now (e_time_str e) = (ts, hh, dow)" by (cases "parse_time now (e_time_str e)")
  obtain mth url where r: "request_method_url (e_request e) = (mth, url)" by (cases "request_method_url (e_request e)")
  have "sessions_ok (count_hit m e hh dow mth url)" using assms by (simp add: sessions_ok_def)
  then show ?thesis
    unfolding process_entry_def Let_def using False p r by (simp add: track_session_ok)
qed

lemma scan_entries_ok:
  "sessions_ok m \<Longrightarrow> \<exists>m'. scan_entries internal clock i m entries = Inr m' \<and> sessions_ok m'"
proof (induction entries arbitrary: i m)
  case Nil
  then show ?case by simp
next
  case (Cons e es)
  from process_entry_ok[OF Cons.prems] obtain m1
    where m1: "process_entry internal (clock i) m e = Inr m1" "sessions_ok m1" by blast
  from Cons.IH[OF m1(2)] m1(1) show ?case by simp
qed

lemma parse_access_log_returns: "\<exists>m. parse_access_log internal clock entries = Some m"
proof -
  have "sessions_ok initial_traffic_metrics" by (simp add: sessions_ok_def initial_traffic_metrics_def)
  from scan_entries_ok[OF this] obtain m'
    where "scan_entries internal clock 0 initial_traffic_metrics entries = Inr m'" by blast
  then show ?thesis by (simp add: parse_access_log_def)
qed

subsection \<open>Session boundaries\<close>

text \<open>
  The traffic analyzer on the example of the specification: events at 0, 5, 40 and 50
  minutes from one client fall into two sessions, the first two events under the session
  id of the first and the last two under the session id of the third.
\<close>

lemma traffic_four_events:
  "map_option paths
     (parse_access_log no_internal_ip (clock_at (mk_datetime 2023 10 11 9 0 0))
        [log_line ''203.0.113.5'' ''10/Oct/2023:13:00:00 +0200'' ''GET /a HTTP/1.1'' ''512'',
         log_line ''203.0.113.5'' ''10/Oct/2023:13:05:00 +0200'' ''GET /b HTTP/1.1'' ''512'',
         log_line ''203.0.113.5'' ''10/Oct/2023:13:40:00 +0200'' ''GET /c HTTP/1.1'' ''512'',
         log_line ''203.0.113.5'' ''10/Oct/2023:13:50:00 +0200'' ''GET /d HTTP/1.1'' ''512''])
   = Some [(mk_datetime 2023 10 10 13 0 0, ''203.0.113.5'', ''/a'', (''203.0.113.5'', mk_datetime 2023 10 10 13 0 0)),
           (mk_datetime 2023 10 10 13 5 0, ''203.0.113.5'', ''/b'', (''203.0.113.5'', mk_datetime 2023 10 10 13 0 0)),
           (mk_datetime 2023 10 10 13 40 0, ''203.0.113.5'', ''/c'', (''203.0.113.5'', mk_datetime 2023 10 10 13 40 0)),
           (mk_datetime 2023 10 10 13 50 0, ''203.0.113.5'', ''/d'', (''203.0.113.5'', mk_datetime 2023 10 10 13 40 0))]"
  by code_simp

text \<open>
  The SEO analyzer: for non-bot traffic of a known client, the event extends the session
  iff the gap is strictly smaller than the timeout.
\<close>

lemma seo_process_entry_continues_iff:
  assumes "identify_bot (e_user_agent e) = None"
    and "map_of (ip_last_seen st) (e_ip e) = Some last_seen"
    and "parse_time now (e_time_str e) = (ts, hh, dow)"
  shows "\<exists>url. dict_get (seo_sessions (seo_process_entry now st e)) (e_ip e) []
           = (if datetime_sub ts last_seen < session_timeout
              then dict_get (seo_sessions st) (e_ip e) [] @ [(ts, url)] else [(ts, url)])"
  using assms by (auto simp add: seo_process_entry_def Let_def dict_get_dict_set split: prod.splits)

text \<open>
  The content analyzer, like the traffic analyzer, keeps two events 30 minutes apart in
  one session.
\<close>

lemma content_thirty_minutes:
  "map_option c_sessions
     (content_parse_access_log (clock_at (mk_datetime 2023 10 11 9 0 0)) (mk_datetime 2023 10 11 9 0 0)
        [(log_line ''203.0.113.5'' ''10/Oct/2023:13:00:00 +0200'' ''GET /a HTTP/1.1'' ''512'', Some ''/a''),
         (log_line ''203.0.113.5'' ''10/Oct/2023:13:30:00 +0200'' ''GET /b HTTP/1.1'' ''512'', Some ''/b'')])
   = Some [(''203.0.113.5'',
            [(mk_datetime 2023 10 10 13 0 0, ''/a'', (''203.0.113.5'', mk_datetime 2023 10 10 13 0 0)),
             (mk_datetime 2023 10 10 13 30 0, ''/b'', (''203.0.113.5'', mk_datetime 2023 10 10 13 0 0))])]"
  by code_simp

text \<open>
  Claim C2 at two events of one client exactly 30 minutes apart. The traffic analyzer
  keeps them in one session, as the claim says (a gap of 30 minutes is not greater than
  the timeout). The SEO analyzer starts a new session: its session of the client holds the
  second event alone and both URLs are counted as entry pages.
\<close>

theorem seo_splits_session_at_thirty_minutes:
  "datetime_sub (mk_datetime 2023 10 10 13 30 0) (mk_datetime 2023 10 10 13 0 0) = session_timeout
   \<and> seo_sessions (seo_parse_access_log (clock_at (mk_datetime 2023 10 11 9 0 0))
        [log_line ''203.0.113.5'' ''10/Oct/2023:13:00:00 +0200'' ''GET /a HTTP/1.1'' ''512'',
         log_line ''203.0.113.5'' ''10/Oct/2023:13:30:00 +0200'' ''GET /b HTTP/1.1'' ''512''])
       = [(''203.0.113.5'', [(mk_datetime 2023 10 10 13 30 0, ''/b'')])]
   \<and> top_entry_pages (seo_parse_access_log (clock_at (mk_datetime 2023 10 11 9 0 0))
        [log_line ''203.0.113.5'' ''10/Oct/2023:13:00:00 +0200'' ''GET /a HTTP/1.1'' ''512'',
         log_line ''203.0.113.5'' ''10/Oct/2023:13:30:00 +0200'' ''GET /b HTTP/1.1'' ''512''])
       = [(''/a'', 1), (''/b'', 1)]
   \<and> map_option sessions (parse_access_log no_internal_ip (clock_at (mk_datetime 2023 10 11 9 0 0))
        [log_line ''203.0.113.5'' ''10/Oct/2023:13:00:00 +0200'' ''GET /a HTTP/1.1'' ''512'',
         log_line ''203.0.113.5'' ''10/Oct/2023:13:30:00 +0200'' ''GET /b HTTP/1.1'' ''512''])
       = Some [(''203.0.113.5'',
                [(mk_datetime 2023 10 10 13 0 0, ''/a'', (''203.0.113.5'', mk_datetime 2023 10 10 13 0 0)),
                 (mk_datetime 2023 10 10 13 30 0, ''/b'', (''203.0.113.5'', mk_datetime 2023 10 10 13 0 0))])]
   \<and> map_option entry_pages (parse_access_log no_internal_ip (clock_at (mk_datetime 2023 10 11 9 0 0))
        [log_line ''203.0.113.5'' ''10/Oct/2023:13:00:00 +0200'' ''GET /a HTTP/1.1'' ''512'',
         log_line ''203.0.113.5'' ''10/Oct/2023:13:30:00 +0200'' ''GET /b HTTP/1.1'' ''512''])
       = Some [(''/a'', 1)]"
  by code_simp

subsection \<open>Static assets\<close>







subsection \<open>Dependence on the wall clock\<close>



text \<open>
  The content analyzer reads the wall clock once more, for its list of trending content
  (hits later than one day before the start of the run): even with well-formed
  timestamps that list depends on when the analyzer is run.
\<close>

lemma content_trending_depends_on_clock:
  "map_option trending_content
     (content_parse_access_log (clock_at (mk_datetime 2023 10 10 14 0 0)) (mk_datetime 2023 10 10 14 0 0)
        [(log_line ''203.0.113.5'' ''10/Oct/2023:13:00:00 +0200'' ''GET /a HTTP/1.1'' ''512'', Some ''/a'')])
     = Some [(''/a'', mk_datetime 2023 10 10 13 0 0)]
   \<and> map_option trending_content
     (content_parse_access_log (clock_at (mk_datetime 2023 10 12 14 0 0)) (mk_datetime 2023 10 12 14 0 0)
        [(log_line ''203.0.113.5'' ''10/Oct/2023:13:00:00 +0200'' ''GET /a HTTP/1.1'' ''512'', Some ''/a'')])
     = Some []"
  by code_simp




section \<open>Properties of the bounce rate\<close>






section \<open>Properties of the engagement metrics\<close>













end
